theory Spec2Isabelle
  imports Complex_Main "HOL-Library.Multiset" "HOL-Library.List_Lexorder"
begin

section \<open>JavaScript strings\<close>

text \<open>
  A JavaScript string is a sequence of UTF-16 code units. A code unit is modelled by its
  numeric value (a natural number below 65536); the program only compares code units, it
  never computes with them. The separator \<open>U+22C5\<close> (dot operator) and the prefix
  \<open>U+00B5\<close> (micro sign) are one code unit each. Relational comparison of strings
  (\<open>a > b\<close>) is the lexicographic order of the code unit sequences, which is the order
  of lists from \<open>List_Lexorder\<close>.
\<close>

type_synonym codeunit = nat
type_synonym jsstring = "codeunit list"

definition js :: "string \<Rightarrow> jsstring" where
  \<comment> \<open>an ASCII string literal of the source\<close>
  "js s = map of_char s"

definition SLASH :: codeunit where "SLASH = 47"            \<comment> \<open>\<open>/\<close>\<close>
definition CARET :: codeunit where "CARET = 94"            \<comment> \<open>\<open>^\<close>\<close>
definition UNDERSCORE :: codeunit where "UNDERSCORE = 95"  \<comment> \<open>\<open>_\<close>\<close>
definition DOT_OPERATOR :: codeunit where "DOT_OPERATOR = 8901"  \<comment> \<open>\<open>U+22C5\<close>\<close>
definition MICRO_SIGN :: codeunit where "MICRO_SIGN = 181"       \<comment> \<open>\<open>U+00B5\<close>\<close>

definition isWhiteSpace :: "codeunit \<Rightarrow> bool" where
  \<comment> \<open>the class \<open>\\s\<close> of a regular expression, which is also what \<open>trim\<close> strips:
      WhiteSpace and LineTerminator of ECMAScript\<close>
  "isWhiteSpace c \<longleftrightarrow>
     c = 9 \<or> c = 10 \<or> c = 11 \<or> c = 12 \<or> c = 13 \<or> c = 32 \<or> c = 160 \<or> c = 5760 \<or>
     (8192 \<le> c \<and> c \<le> 8202) \<or> c = 8232 \<or> c = 8233 \<or> c = 8239 \<or> c = 8287 \<or>
     c = 12288 \<or> c = 65279"

definition trim :: "jsstring \<Rightarrow> jsstring" where
  "trim str = rev (dropWhile isWhiteSpace (rev (dropWhile isWhiteSpace str)))"

fun split_slash :: "jsstring \<Rightarrow> jsstring list" where
  \<comment> \<open>\<open>str.split("/")\<close>: the pieces between the slashes, always at least one\<close>
  "split_slash [] = [[]]"
| "split_slash (c # cs) =
     (if c = SLASH then [] # split_slash cs
      else (case split_slash cs of p # ps \<Rightarrow> (c # p) # ps | [] \<Rightarrow> [[c]]))"

definition isUnitSeparatorStart :: "codeunit \<Rightarrow> bool" where
  "isUnitSeparatorStart c \<longleftrightarrow> isWhiteSpace c \<or> c = DOT_OPERATOR"

function split_UNIT_SEPARATOR :: "jsstring \<Rightarrow> jsstring list" where
  \<comment> \<open>\<open>str.split(/\\s+|\<cdot>/g)\<close> with \<open>U+22C5\<close> for the dot: a match is a maximal run of
      white space or one dot operator; the pattern never matches the empty string, so the
      empty string splits into one empty piece\<close>
  "split_UNIT_SEPARATOR str =
     (let piece = takeWhile (\<lambda>c. \<not> isUnitSeparatorStart c) str in
      case dropWhile (\<lambda>c. \<not> isUnitSeparatorStart c) str of
        [] \<Rightarrow> [piece]
      | c # cs \<Rightarrow>
          piece # split_UNIT_SEPARATOR (if isWhiteSpace c then dropWhile isWhiteSpace cs else cs))"
  by pat_completeness auto
termination
proof (relation "measure length")
  show "wf (measure length)" by simp
next
  fix str :: jsstring and c cs
  assume "dropWhile (\<lambda>c. \<not> isUnitSeparatorStart c) str = c # cs"
  then have "length (c # cs) \<le> length str"
    using length_dropWhile_le [of "\<lambda>c. \<not> isUnitSeparatorStart c" str] by simp
  moreover have "length (dropWhile isWhiteSpace cs) \<le> length cs"
    by (rule length_dropWhile_le)
  ultimately show
    "((if isWhiteSpace c then dropWhile isWhiteSpace cs else cs), str) \<in> measure length"
    by simp
qed

declare split_UNIT_SEPARATOR.simps [simp del]

fun join :: "jsstring \<Rightarrow> jsstring list \<Rightarrow> jsstring" where
  \<comment> \<open>\<open>parts.join(sep)\<close>\<close>
  "join sep [] = []"
| "join sep [p] = p"
| "join sep (p # q # ps) = p @ sep @ join sep (q # ps)"

definition indexOf :: "jsstring \<Rightarrow> codeunit \<Rightarrow> nat option" where
  \<comment> \<open>\<open>str.indexOf(c)\<close> for a one-unit string \<open>c\<close>; \<open>None\<close> is the result \<open>-1\<close>\<close>
  "indexOf str c = (if c \<in> set str then Some (length (takeWhile (\<lambda>x. x \<noteq> c) str)) else None)"

definition every_indexed :: "('a \<Rightarrow> nat \<Rightarrow> 'a list \<Rightarrow> bool) \<Rightarrow> 'a list \<Rightarrow> bool" where
  \<comment> \<open>\<open>a.every((v, i, a) => ...)\<close>\<close>
  "every_indexed p a = list_all (\<lambda>i. p (a ! i) i a) [0..<length a]"

definition at_index :: "'a list \<Rightarrow> nat \<Rightarrow> 'a option" where
  \<comment> \<open>\<open>a[i]\<close>: \<open>None\<close> is \<open>undefined\<close>, the value of a read out of range\<close>
  "at_index a i = (if i < length a then Some (a ! i) else None)"

section \<open>Errors\<close>

text \<open>
  The source throws one class, \<open>QuantityError\<close>, told apart by its message. The
  constructors below name the throw sites by the kinds of the specification:
  \<^item> \<open>InvalidDimensions\<close>: the three messages of the \<open>Dimensions\<close> constructor;
  \<^item> \<open>InvalidExponent\<close>: "Invalid exponent/power on unit ...";
  \<^item> \<open>UnknownUnit\<close>: "Unable to parse the unit ..." and "Unknown/unsupported unit ...";
  \<^item> \<open>InvalidUnitString\<close>: "Cannot parse a unit with 2 or more "/" symbols ...".
\<close>

datatype error =
    InvalidDimensions
  | InvalidExponent
  | UnknownUnit
  | InvalidUnitString

section \<open>Dimensions (dimensions.ts)\<close>

definition numBasicDimensions :: nat where
  "numBasicDimensions = 8"

record Dimensions =
  dimensions :: "int list"
  customDimensionNames :: "jsstring list option"
  offset :: real

definition isSorted :: "jsstring list \<Rightarrow> bool" where
  \<comment> \<open>\<open>customDimensionNames.every((v, i, a) => (i === 0 || v > a[i - 1]))\<close>\<close>
  "isSorted names = every_indexed (\<lambda>v i a. i = 0 \<or> v > a ! (i - 1)) names"

definition new_Dimensions ::
  "int list \<Rightarrow> jsstring list option \<Rightarrow> real option \<Rightarrow> error + Dimensions" where
  \<comment> \<open>the constructor; an absent third argument is the default offset 0\<close>
  "new_Dimensions dims names off =
     (if length dims < numBasicDimensions then Inl InvalidDimensions
      else
        let numCustomDimensions = (case names of None \<Rightarrow> 0 | Some ns \<Rightarrow> length ns) in
        if length dims \<noteq> numBasicDimensions + numCustomDimensions then Inl InvalidDimensions
        else if (case names of None \<Rightarrow> False | Some ns \<Rightarrow> \<not> isSorted ns) then Inl InvalidDimensions
        else Inr \<lparr> dimensions = dims, customDimensionNames = names,
                   offset = (case off of None \<Rightarrow> 0 | Some x \<Rightarrow> x) \<rparr>)"

definition isDimensionless :: "Dimensions \<Rightarrow> bool" where
  "isDimensionless this \<longleftrightarrow> list_all (\<lambda>d. d = 0) (dimensions this) \<and> offset this = 0"

definition equalTo :: "Dimensions \<Rightarrow> Dimensions \<Rightarrow> bool" where
  "equalTo this other \<longleftrightarrow>
     offset other = offset this \<and>
     length (dimensions this) = length (dimensions other) \<and>
     every_indexed (\<lambda>d i a. Some d = at_index (dimensions other) i) (dimensions this) \<and>
     map_option length (customDimensionNames this) = map_option length (customDimensionNames other) \<and>
     (case customDimensionNames this of
        None \<Rightarrow> True
      | Some names \<Rightarrow>
          every_indexed
            (\<lambda>cdn i a. Some cdn =
               (case customDimensionNames other of None \<Rightarrow> None | Some others \<Rightarrow> at_index others i))
            names)"

definition Dimensionless :: Dimensions where
  "Dimensionless = \<lparr> dimensions = [0, 0, 0, 0, 0, 0, 0, 0], customDimensionNames = None, offset = 0 \<rparr>"

section \<open>Objects as property maps\<close>

text \<open>
  An object literal is a finite map from its own keys to values, with \<open>Object.prototype\<close>
  as its prototype. The operator \<open>key in obj\<close> and the read \<open>obj[key]\<close> consult the
  prototype as well, so the property names of \<open>Object.prototype\<close> are listed here.
  (\<open>Object.freeze\<close> and the spread \<open>{...a, ...b}\<close> keep this prototype. Some hosts remove
  \<open>__proto__\<close>; the parser answers the same with or without it, since the name starts with
  an underscore.)
\<close>

definition objectPrototypeKeys :: "jsstring list" where
  "objectPrototypeKeys =
     [js ''constructor'', js ''hasOwnProperty'', js ''isPrototypeOf'',
      js ''propertyIsEnumerable'', js ''toLocaleString'', js ''toString'', js ''valueOf'',
      js ''__proto__'', js ''__defineGetter__'', js ''__defineSetter__'',
      js ''__lookupGetter__'', js ''__lookupSetter__'']"

definition has_property :: "(jsstring \<rightharpoonup> 'v) \<Rightarrow> jsstring \<Rightarrow> bool" where
  \<comment> \<open>\<open>key in obj\<close>\<close>
  "has_property obj key \<longleftrightarrow> obj key \<noteq> None \<or> key \<in> set objectPrototypeKeys"

datatype 'v property_value =
    Undefined               \<comment> \<open>no such property\<close>
  | Own 'v                  \<comment> \<open>the value of an own property\<close>
  | Inherited jsstring      \<comment> \<open>the member of \<open>Object.prototype\<close> of that name\<close>

definition get_property :: "(jsstring \<rightharpoonup> 'v) \<Rightarrow> jsstring \<Rightarrow> 'v property_value" where
  \<comment> \<open>\<open>obj[key]\<close>\<close>
  "get_property obj key =
     (case obj key of
        Some v \<Rightarrow> Own v
      | None \<Rightarrow> if key \<in> set objectPrototypeKeys then Inherited key else Undefined)"

definition property_key :: "codeunit option \<Rightarrow> jsstring" where
  \<comment> \<open>the property key that \<open>str[0]\<close> denotes: the one-unit string, or the name
      \<open>undefined\<close> when the string is empty\<close>
  "property_key v = (case v of None \<Rightarrow> js ''undefined'' | Some c \<Rightarrow> [c])"

section \<open>Numbers of the host\<close>

text \<open>
  An exponent is a JavaScript number. The code asks of it whether it is zero, whether it
  is an integer, its sign, and its negation; an integer-valued number is modelled by its
  value, every other number (\<open>NaN\<close>, the infinities, a fraction) by \<open>NonInteger\<close>.

  The conversion \<open>Number(str)\<close> of a string and the conversion of a number to a string in
  a template literal belong to the host, not to this program. They are parameters of the
  functions that call them, named \<open>Number\<close> and \<open>ToString\<close> below; the host's conversions
  that the parameters stand for, \<open>StringToNumber\<close> and \<open>ToString_decimal\<close>, follow the
  parser and the formatter.
\<close>

datatype jsnumber = Integer int | NonInteger

section \<open>Units (units.ts)\<close>

definition prefixes :: "(jsstring \<times> real) list" where
  \<comment> \<open>the literals \<open>1.152921504606847e+18\<close>, \<open>1.1805916207174113e+21\<close> and
      \<open>1.2089258196146292e+24\<close> of the last three entries are the shortest decimal forms of
      the doubles \<open>2^60\<close>, \<open>2^70\<close> and \<open>2^80\<close>, the numbers that the table holds\<close>
  "prefixes =
     [(js ''q'', 1 / 10 ^ 30), (js ''r'', 1 / 10 ^ 27), (js ''y'', 1 / 10 ^ 24),
      (js ''z'', 1 / 10 ^ 21), (js ''a'', 1 / 10 ^ 18), (js ''f'', 1 / 10 ^ 15),
      (js ''p'', 1 / 10 ^ 12), (js ''n'', 1 / 10 ^ 9), (js ''u'', 1 / 10 ^ 6),
      ([MICRO_SIGN], 1 / 10 ^ 6), (js ''m'', 1 / 10 ^ 3), (js ''c'', 1 / 10 ^ 2),
      (js ''d'', 1 / 10),
      (js ''h'', 10 ^ 2), (js ''k'', 10 ^ 3), (js ''M'', 10 ^ 6), (js ''G'', 10 ^ 9),
      (js ''T'', 10 ^ 12), (js ''P'', 10 ^ 15), (js ''E'', 10 ^ 18), (js ''Z'', 10 ^ 21),
      (js ''Y'', 10 ^ 24), (js ''R'', 10 ^ 27), (js ''Q'', 10 ^ 30),
      (js ''Ki'', 1024), (js ''Mi'', 1048576), (js ''Gi'', 1073741824),
      (js ''Ti'', 1099511627776), (js ''Pi'', 1125899906842624),
      (js ''Ei'', 2 ^ 60), (js ''Zi'', 2 ^ 70), (js ''Yi'', 2 ^ 80)]"

record Unit =
  unit_s :: real                 \<comment> \<open>field \<open>s\<close>: scale relative to the SI base unit\<close>
  unit_d :: Dimensions           \<comment> \<open>field \<open>d\<close>\<close>
  unit_offset :: "real option"   \<comment> \<open>field \<open>offset\<close>, optional\<close>
  prefixable :: bool             \<comment> \<open>\<open>prefixable?: true\<close>\<close>
  binaryPrefixable :: bool       \<comment> \<open>\<open>binaryPrefixable?: true\<close>\<close>

definition basic :: "int list \<Rightarrow> Dimensions" where
  \<comment> \<open>the value of \<open>new Dimensions(dims)\<close> in the constant tables\<close>
  "basic dims = \<lparr> dimensions = dims, customDimensionNames = None, offset = 0 \<rparr>"

definition MASS_DIMENSION :: Dimensions where "MASS_DIMENSION = basic [1, 0, 0, 0, 0, 0, 0, 0]"
definition DIST_DIMENSION :: Dimensions where "DIST_DIMENSION = basic [0, 1, 0, 0, 0, 0, 0, 0]"
definition TIME_DIMENSION :: Dimensions where "TIME_DIMENSION = basic [0, 0, 1, 0, 0, 0, 0, 0]"
definition TEMP_DIMENSION :: Dimensions where "TEMP_DIMENSION = basic [0, 0, 0, 1, 0, 0, 0, 0]"
definition NRGY_DIMENSIONS :: Dimensions where "NRGY_DIMENSIONS = basic [1, 2, -2, 0, 0, 0, 0, 0]"
definition POWR_DIMENSIONS :: Dimensions where "POWR_DIMENSIONS = basic [1, 2, -3, 0, 0, 0, 0, 0]"
definition VOLM_DIMENSIONS :: Dimensions where "VOLM_DIMENSIONS = basic [0, 3, 0, 0, 0, 0, 0, 0]"
definition AREA_DIMENSIONS :: Dimensions where "AREA_DIMENSIONS = basic [0, 2, 0, 0, 0, 0, 0, 0]"
definition INFO_DIMENSIONS :: Dimensions where "INFO_DIMENSIONS = basic [0, 0, 0, 0, 0, 0, 0, 1]"
definition PRSR_DIMENSIONS :: Dimensions where "PRSR_DIMENSIONS = basic [1, -1, -2, 0, 0, 0, 0, 0]"

definition plain :: "real \<Rightarrow> Dimensions \<Rightarrow> Unit" where
  \<comment> \<open>\<open>{ s: ..., d: ... }\<close>\<close>
  "plain sc dm = \<lparr> unit_s = sc, unit_d = dm, unit_offset = None,
                    prefixable = False, binaryPrefixable = False \<rparr>"

definition metric :: "real \<Rightarrow> Dimensions \<Rightarrow> Unit" where
  \<comment> \<open>\<open>{ s: ..., d: ..., prefixable: true }\<close>\<close>
  "metric sc dm = (plain sc dm) \<lparr> prefixable := True \<rparr>"

definition builtInUnits :: "(jsstring \<times> Unit) list" where
  "builtInUnits =
     [(js ''%'', plain 0.01 Dimensionless),
      (js ''ppm'', plain 0.000001 Dimensionless),
      (js ''g'', metric 0.001 MASS_DIMENSION),
      (js ''lb'', plain 0.45359237 MASS_DIMENSION),
      (js ''m'', metric 1 DIST_DIMENSION),
      (js ''in'', plain 0.0254 DIST_DIMENSION),
      (js ''ft'', plain 0.3048 DIST_DIMENSION),
      (js ''mi'', plain 1609.344 DIST_DIMENSION),
      (js ''s'', metric 1 TIME_DIMENSION),
      (js ''min'', plain 60 TIME_DIMENSION),
      (js ''h'', plain 3600 TIME_DIMENSION),
      (js ''day'', plain 86400 TIME_DIMENSION),
      (js ''week'', plain 604800 TIME_DIMENSION),
      (js ''yr'', plain 31536000 TIME_DIMENSION),
      (js ''ka'', plain 31536000000 TIME_DIMENSION),
      (js ''Ma'', plain 31536000000000 TIME_DIMENSION),
      (js ''Ga'', plain 31536000000000000 TIME_DIMENSION),
      (js ''K'', metric 1 TEMP_DIMENSION),
      (js ''deltaC'', plain 1 TEMP_DIMENSION),
      (js ''degF'', (plain 0.5555555555555556 TEMP_DIMENSION) \<lparr> unit_offset := Some 255.3722222222222 \<rparr>),
      (js ''degC'', (plain 1 TEMP_DIMENSION) \<lparr> unit_offset := Some 273.15 \<rparr>),
      (js ''c'', plain 299792458 (basic [0, 1, -1, 0, 0, 0, 0, 0])),
      (js ''Pa'', metric 1 PRSR_DIMENSIONS),
      (js ''psi'', plain 6894.75729316836 PRSR_DIMENSIONS),
      (js ''atm'', plain 101325 PRSR_DIMENSIONS),
      (js ''N'', metric 1 (basic [1, 1, -2, 0, 0, 0, 0, 0])),
      (js ''J'', metric 1 NRGY_DIMENSIONS),
      (js ''eV'', metric (1.602176634 / 10 ^ 19) NRGY_DIMENSIONS),
      (js ''BTU'', plain 1055.05585 NRGY_DIMENSIONS),
      (js ''Wh'', metric 3600 NRGY_DIMENSIONS),
      (js ''W'', metric 1 POWR_DIMENSIONS),
      (js ''HP'', plain 745.69987158227 POWR_DIMENSIONS),
      (js ''L'', metric 0.001 VOLM_DIMENSIONS),
      (js ''ha'', plain 10000 AREA_DIMENSIONS),
      (js ''b'', (metric 1 INFO_DIMENSIONS) \<lparr> binaryPrefixable := True \<rparr>),
      (js ''B'', (metric 8 INFO_DIMENSIONS) \<lparr> binaryPrefixable := True \<rparr>),
      (js ''A'', metric 1 (basic [0, 0, 0, 0, 1, 0, 0, 0])),
      (js ''C'', metric 1 (basic [0, 0, 1, 0, 1, 0, 0, 0])),
      (js ''Ah'', metric 3600 (basic [0, 0, 1, 0, 1, 0, 0, 0])),
      (js ''V'', metric 1 (basic [1, 2, -3, 0, -1, 0, 0, 0])),
      (js ''ohm'', plain 1 (basic [1, 2, -3, 0, -2, 0, 0, 0])),
      (js ''F'', metric 1 (basic [-1, -2, 4, 0, 2, 0, 0, 0])),
      (js ''H'', metric 1 (basic [1, 2, -2, 0, -2, 0, 0, 0])),
      (js ''S'', metric 1 (basic [-1, -2, 3, 0, 2, 0, 0, 0])),
      (js ''Wb'', metric 1 (basic [1, 2, -2, 0, -1, 0, 0, 0])),
      (js ''T'', metric 1 (basic [1, 0, -2, 0, -1, 0, 0, 0])),
      (js ''mol'', plain 1 (basic [0, 0, 0, 0, 0, 1, 0, 0])),
      (js ''M'', plain 1000 (basic [0, -3, 0, 0, 0, 1, 0, 0])),
      (js ''Hz'', metric 1 (basic [0, 0, -1, 0, 0, 0, 0, 0])),
      (js ''pphpd'',
         plain (1 / 3600)
           \<lparr> dimensions = [0, 0, -1, 0, 0, 0, 0, 0, -1, 1],
             customDimensionNames = Some [js ''dir'', js ''pax''], offset = 0 \<rparr>)]"

text \<open>
  The fields of \<open>ParsedUnit\<close> are \<open>prefix\<close>, \<open>unit\<close> and \<open>power\<close> in the source, those of
  \<open>Unit\<close> are \<open>s\<close>, \<open>d\<close>, \<open>offset\<close>, \<open>prefixable\<close> and \<open>binaryPrefixable\<close>; the
  records carry a letter in front where the name is taken in HOL or by another record.
  A power is an integer-valued number: the parser returns no other, and the formatter
  is modelled on such lists.
\<close>

record ParsedUnit =
  p_prefix :: "jsstring option"  \<comment> \<open>field \<open>prefix\<close>, optional\<close>
  p_unit :: jsstring             \<comment> \<open>field \<open>unit\<close>\<close>
  p_power :: int                 \<comment> \<open>field \<open>power\<close>\<close>

fun map_throwing :: "('a \<Rightarrow> error + 'b) \<Rightarrow> 'a list \<Rightarrow> error + 'b list" where
  \<comment> \<open>\<open>parts.map(f)\<close> for an \<open>f\<close> that may throw: the first throw, from the left, ends it\<close>
  "map_throwing f [] = Inr []"
| "map_throwing f (x # xs) =
     (case f x of
        Inl e \<Rightarrow> Inl e
      | Inr y \<Rightarrow> (case map_throwing f xs of Inl e \<Rightarrow> Inl e | Inr ys \<Rightarrow> Inr (y # ys)))"

definition all_units :: "(jsstring \<rightharpoonup> Unit) option \<Rightarrow> (jsstring \<rightharpoonup> Unit)" where
  \<comment> \<open>\<open>additionalUnits ? { ...builtInUnits, ...additionalUnits } : builtInUnits\<close>\<close>
  "all_units additionalUnits =
     (case additionalUnits of
        Some extra \<Rightarrow> map_of builtInUnits ++ extra
      | None \<Rightarrow> map_of builtInUnits)"

definition parseSingleUnit ::
  "(jsstring \<Rightarrow> jsnumber) \<Rightarrow> (jsstring \<rightharpoonup> Unit) option \<Rightarrow> jsstring \<Rightarrow> error + ParsedUnit" where
  "parseSingleUnit Number additionalUnits unitStr =
     (let units = all_units additionalUnits;
          caretPos = indexOf unitStr CARET;
          prefixedUnit = (case caretPos of None \<Rightarrow> unitStr | Some i \<Rightarrow> take i unitStr);
          power = (case caretPos of None \<Rightarrow> Integer 1 | Some i \<Rightarrow> Number (drop (i + 1) unitStr))
      in
      case power of
        NonInteger \<Rightarrow> Inl InvalidExponent
      | Integer pw \<Rightarrow>
          if pw = 0 then Inl InvalidExponent
          else if has_property units prefixedUnit then
            Inr \<lparr> p_prefix = None, p_unit = prefixedUnit, p_power = pw \<rparr>
          else if at_index prefixedUnit 0 = Some UNDERSCORE then
            Inr \<lparr> p_prefix = None, p_unit = prefixedUnit, p_power = pw \<rparr>
          else
            let firstLetter = property_key (at_index prefixedUnit 0);
                rest = drop 1 prefixedUnit
            in
            if has_property (map_of prefixes) firstLetter \<and>
               (case units rest of Some u \<Rightarrow> prefixable u | None \<Rightarrow> False)
            then Inr \<lparr> p_prefix = Some firstLetter, p_unit = rest, p_power = pw \<rparr>
            else
              let firstTwo = take 2 prefixedUnit;
                  rest = drop 2 prefixedUnit
              in
              if has_property (map_of prefixes) firstTwo \<and>
                 (case units rest of Some u \<Rightarrow> binaryPrefixable u | None \<Rightarrow> False)
              then Inr \<lparr> p_prefix = Some firstTwo, p_unit = rest, p_power = pw \<rparr>
              else Inl UnknownUnit)"

definition parseUnits ::
  "(jsstring \<Rightarrow> jsnumber) \<Rightarrow> (jsstring \<rightharpoonup> Unit) option \<Rightarrow> jsstring \<Rightarrow> error + ParsedUnit list" where
  "parseUnits Number additionalUnits unitStr =
     (let sections = split_slash unitStr in
      if length sections > 2 then Inl InvalidUnitString
      else
        case map_throwing (parseSingleUnit Number additionalUnits)
               (split_UNIT_SEPARATOR (trim (sections ! 0))) of
          Inl e \<Rightarrow> Inl e
        | Inr numeratorParts \<Rightarrow>
            (case at_index sections 1 of
               None \<Rightarrow> Inr numeratorParts
             | Some denominator \<Rightarrow>
                 (case map_throwing (parseSingleUnit Number additionalUnits)
                         (split_UNIT_SEPARATOR (trim denominator)) of
                    Inl e \<Rightarrow> Inl e
                  | Inr denominatorParts \<Rightarrow>
                      Inr (numeratorParts @
                           map (\<lambda>x. x \<lparr> p_power := p_power x * - 1 \<rparr>) denominatorParts))))"

definition prefix_or_empty :: "ParsedUnit \<Rightarrow> jsstring" where
  \<comment> \<open>\<open>u.prefix ?? ""\<close>\<close>
  "prefix_or_empty u = (case p_prefix u of None \<Rightarrow> [] | Some p \<Rightarrow> p)"

definition sort_out ::
  "(int \<Rightarrow> jsstring) \<Rightarrow> jsstring list \<times> jsstring list \<Rightarrow> ParsedUnit \<Rightarrow> jsstring list \<times> jsstring list" where
  \<comment> \<open>one round of the loop of \<open>toUnitString\<close> over the arrays \<open>numerator\<close> and
      \<open>denominator\<close>\<close>
  "sort_out ToString arrays u =
     (case arrays of (numerator, denominator) \<Rightarrow>
        if p_power u > 0 then
          (numerator @ [prefix_or_empty u @ p_unit u @
                          (if p_power u \<noteq> 1 then CARET # ToString (p_power u) else [])],
           denominator)
        else
          (numerator,
           denominator @ [prefix_or_empty u @ p_unit u @
                            (if p_power u \<noteq> - 1 then CARET # ToString (p_power u * - 1) else [])]))"

definition toUnitString :: "(int \<Rightarrow> jsstring) \<Rightarrow> ParsedUnit list \<Rightarrow> jsstring" where
  "toUnitString ToString units =
     (case foldl (sort_out ToString) ([], []) units of (numerator, denominator) \<Rightarrow>
        if denominator \<noteq> [] then
          if numerator \<noteq> [] then
            join [DOT_OPERATOR] numerator @ [SLASH] @ join [DOT_OPERATOR] denominator
          else
            join [DOT_OPERATOR]
              (map (\<lambda>u. prefix_or_empty u @ p_unit u @ CARET # ToString (p_power u)) units)
        else join [DOT_OPERATOR] numerator)"

definition getUnitData ::
  "jsstring \<Rightarrow> (jsstring \<rightharpoonup> Unit) option \<Rightarrow> error + Unit property_value" where
  \<comment> \<open>the result is typed \<open>Unit\<close> in the source; a read of an inherited property returns the
      member of \<open>Object.prototype\<close> instead\<close>
  "getUnitData unit additionalUnits =
     (let found =
            (case get_property (map_of builtInUnits) unit of
               Undefined \<Rightarrow>
                 (case additionalUnits of None \<Rightarrow> Undefined | Some extra \<Rightarrow> get_property extra unit)
             | v \<Rightarrow> v)
      in
      if found \<noteq> Undefined then Inr found
      else if at_index unit 0 = Some UNDERSCORE then
        (case new_Dimensions [0, 0, 0, 0, 0, 0, 0, 0, 1] (Some [drop 1 unit]) None of
           Inl e \<Rightarrow> Inl e
         | Inr dm \<Rightarrow> Inr (Own (plain 1 dm)))
      else Inl UnknownUnit)"

section \<open>The host's number conversions\<close>

text \<open>
  \<open>StringToNumber\<close> is the conversion \<open>Number(str)\<close> of the host, the abstract operation
  StringToNumber of ECMAScript, as far as the parser observes it. White space is stripped
  from both ends; the empty text is 0; a text that is a \<open>StrNumericLiteral\<close> (an optionally
  signed decimal literal with an optional fraction and an optional exponent part, or an
  unsigned binary, octal or hexadecimal integer literal) has the double nearest to its
  mathematical value, ties to the even significand; every other text is \<open>NaN\<close>.
  (ECMAScript lets an implementation disregard the digits after the twentieth significant
  one of a decimal literal; the model does not, as the engines in use do not.) Of the
  result the model keeps whether it is integer-valued and which integer: \<open>NaN\<close>, the
  infinities and the fractions are \<open>NonInteger\<close>, and \<open>-0\<close> is the integer 0, as the tests
  \<open>power === 0\<close> and \<open>Number.isInteger(power)\<close> of the code do not tell the two zeros apart.

  \<open>ToString_decimal\<close> writes an integer in decimal digits, with a minus sign when negative,
  as the host writes every integer below \<open>2^53\<close> in magnitude. (Of a larger number the host
  writes the fewest digits that convert back to it; \<open>ToString_decimal\<close> writes all its
  digits, which convert back to it as well.)
\<close>

definition isDigit :: "codeunit \<Rightarrow> bool" where
  "isDigit c \<longleftrightarrow> 48 \<le> c \<and> c \<le> 57"

definition digit_value :: "codeunit \<Rightarrow> nat" where
  \<comment> \<open>the value of a digit \<open>0-9\<close>, \<open>a-f\<close> or \<open>A-F\<close>; 36 for every other code unit\<close>
  "digit_value c =
     (if 48 \<le> c \<and> c \<le> 57 then c - 48
      else if 97 \<le> c \<and> c \<le> 102 then c - 87
      else if 65 \<le> c \<and> c \<le> 70 then c - 55
      else 36)"

definition digits_value :: "nat \<Rightarrow> jsstring \<Rightarrow> nat" where
  \<comment> \<open>the mathematical value of a run of digits in the given radix\<close>
  "digits_value radix ds = foldl (\<lambda>acc c. radix * acc + digit_value c) 0 ds"

definition SignedInteger :: "jsstring \<Rightarrow> int option" where
  \<comment> \<open>\<open>SignedInteger ::: DecimalDigits | + DecimalDigits | - DecimalDigits\<close>, with its
      value\<close>
  "SignedInteger str =
     (let ds = (if take 1 str = [43] \<or> take 1 str = [45] then drop 1 str else str) in
      if ds \<noteq> [] \<and> list_all isDigit ds then
        Some (if take 1 str = [45] then - int (digits_value 10 ds) else int (digits_value 10 ds))
      else None)"

definition ExponentPart :: "jsstring \<Rightarrow> int option" where
  \<comment> \<open>the optional \<open>ExponentPart ::: ExponentIndicator SignedInteger\<close> that ends a decimal
      literal: the empty text counts as the exponent 0\<close>
  "ExponentPart str =
     (case str of
        [] \<Rightarrow> Some 0
      | c # rest \<Rightarrow> if c = 101 \<or> c = 69 then SignedInteger rest else None)"

datatype numeric_literal =
    NotNumeric             \<comment> \<open>the text is no \<open>StrNumericLiteral\<close>\<close>
  | InfinityLiteral
  | Finite nat int         \<comment> \<open>the mathematical value \<open>mantissa \<times> 10^exponent\<close>\<close>

definition StrUnsignedDecimalLiteral :: "jsstring \<Rightarrow> numeric_literal" where
  \<comment> \<open>\<open>Infinity\<close>, \<open>DecimalDigits . DecimalDigits? ExponentPart?\<close>,
      \<open>. DecimalDigits ExponentPart?\<close> or \<open>DecimalDigits ExponentPart?\<close>\<close>
  "StrUnsignedDecimalLiteral str =
     (if str = js ''Infinity'' then InfinityLiteral
      else
        let intDigits = takeWhile isDigit str;
            afterInt = dropWhile isDigit str;
            hasPoint = (take 1 afterInt = [46]);
            fracDigits = (if hasPoint then takeWhile isDigit (drop 1 afterInt) else []);
            afterFrac = (if hasPoint then dropWhile isDigit (drop 1 afterInt) else afterInt)
        in
        if intDigits = [] \<and> fracDigits = [] then NotNumeric
        else
          (case ExponentPart afterFrac of
             None \<Rightarrow> NotNumeric
           | Some e \<Rightarrow>
               Finite (digits_value 10 (intDigits @ fracDigits)) (e - int (length fracDigits))))"

definition NonDecimalIntegerLiteral :: "jsstring \<Rightarrow> numeric_literal" where
  \<comment> \<open>\<open>0b\<close>, \<open>0o\<close> or \<open>0x\<close> (the letter in either case) followed by one or more digits of
      the radix\<close>
  "NonDecimalIntegerLiteral str =
     (let radix =
            (if take 2 str = js ''0b'' \<or> take 2 str = js ''0B'' then 2
             else if take 2 str = js ''0o'' \<or> take 2 str = js ''0O'' then 8
             else if take 2 str = js ''0x'' \<or> take 2 str = js ''0X'' then 16
             else 0);
          ds = drop 2 str
      in
      if ds \<noteq> [] \<and> list_all (\<lambda>c. digit_value c < radix) ds then Finite (digits_value radix ds) 0
      else NotNumeric)"

definition StrNumericLiteral :: "jsstring \<Rightarrow> bool \<times> numeric_literal" where
  \<comment> \<open>\<open>StrNumericLiteral ::: StrDecimalLiteral | NonDecimalIntegerLiteral\<close>, where only a
      decimal literal may carry a sign; the first component tells a minus sign\<close>
  "StrNumericLiteral str =
     (let signed = (take 1 str = [43] \<or> take 1 str = [45]);
          decimal = StrUnsignedDecimalLiteral (if signed then drop 1 str else str)
      in
      if decimal \<noteq> NotNumeric then (take 1 str = [45], decimal)
      else (False, NonDecimalIntegerLiteral str))"

function bit_length :: "nat \<Rightarrow> nat" where
  \<comment> \<open>the number of binary digits of a natural number\<close>
  "bit_length n = (if n = 0 then 0 else Suc (bit_length (n div 2)))"
  by pat_completeness auto
termination
  by (relation "measure id") auto

declare bit_length.simps [simp del]

definition floor_log2 :: "nat \<Rightarrow> nat \<Rightarrow> int" where
  \<comment> \<open>for positive \<open>a\<close> and \<open>b\<close>, the exponent \<open>e\<close> with \<open>2^e \<le> a / b < 2^(e + 1)\<close>: the
      difference \<open>d\<close> of the bit lengths, or \<open>d - 1\<close> when \<open>a / b < 2^d\<close>\<close>
  "floor_log2 a b =
     (let d = int (bit_length a) - int (bit_length b) in
      if (if 0 \<le> d then b * 2 ^ nat d \<le> a else b \<le> a * 2 ^ nat (- d)) then d else d - 1)"

definition round_half_even :: "nat \<Rightarrow> nat \<Rightarrow> nat" where
  \<comment> \<open>the natural number nearest to \<open>p / q\<close>; of two equally near, the even one\<close>
  "round_half_even p q =
     (let f = p div q; r = p mod q in
      if 2 * r < q then f
      else if q < 2 * r then f + 1
      else if even f then f
      else f + 1)"

definition integer_of_nearest_double :: "nat \<Rightarrow> nat \<Rightarrow> nat option" where
  \<comment> \<open>the double nearest to \<open>a / b\<close> (\<open>b\<close> positive), ties to the even significand, when it
      is finite and integer-valued. A double is \<open>m \<times> 2^k\<close> with \<open>m < 2^53\<close> and \<open>k \<ge> -1074\<close>;
      for \<open>2^e \<le> a / b < 2^(e + 1)\<close> the doubles around \<open>a / b\<close> are the multiples of \<open>2^k\<close>,
      \<open>k = max (e - 52) (-1074)\<close>; a result of \<open>2^1024\<close> or more is an infinity\<close>
  "integer_of_nearest_double a b =
     (if a = 0 then Some 0
      else
        let k = max (floor_log2 a b - 52) (- 1074) in
        if 0 \<le> k then
          (let v = round_half_even a (b * 2 ^ nat k) * 2 ^ nat k in
           if v < 2 ^ 1024 then Some v else None)
        else
          (let m = round_half_even (a * 2 ^ nat (- k)) b in
           if 2 ^ nat (- k) dvd m then Some (m div 2 ^ nat (- k)) else None))"

definition StringToNumber :: "jsstring \<Rightarrow> jsnumber" where
  \<comment> \<open>\<open>Number(str)\<close>\<close>
  "StringToNumber str =
     (let literal = trim str in
      if literal = [] then Integer 0
      else
        (case StrNumericLiteral literal of
           (negative, Finite mantissa e) \<Rightarrow>
             (case integer_of_nearest_double
                     (if 0 \<le> e then mantissa * 10 ^ nat e else mantissa)
                     (if 0 \<le> e then 1 else 10 ^ nat (- e)) of
                None \<Rightarrow> NonInteger
              | Some n \<Rightarrow> Integer (if negative then - int n else int n))
         | _ \<Rightarrow> NonInteger))"

definition double_integer :: "int \<Rightarrow> bool" where
  \<comment> \<open>the integers that a double holds: below \<open>2^1024\<close> in magnitude, with at most 53
      significant binary digits\<close>
  "double_integer n \<longleftrightarrow>
     nat \<bar>n\<bar> < 2 ^ 1024 \<and> 2 ^ (bit_length (nat \<bar>n\<bar>) - 53) dvd nat \<bar>n\<bar>"

function digits_of :: "nat \<Rightarrow> jsstring" where
  "digits_of n = (if n < 10 then [48 + n] else digits_of (n div 10) @ [48 + n mod 10])"
  by pat_completeness auto
termination
  by (relation "measure id") auto

declare digits_of.simps [simp del]

definition ToString_decimal :: "int \<Rightarrow> jsstring" where
  "ToString_decimal n = (if n < 0 then 45 # digits_of (nat (- n)) else digits_of (nat n))"

section \<open>What the program needs of the host's number conversions\<close>

definition representable :: "(jsstring \<Rightarrow> jsnumber) \<Rightarrow> int \<Rightarrow> bool" where
  \<comment> \<open>the integer is a value of the host's number type: some string converts to it\<close>
  "representable Number n \<longleftrightarrow> (\<exists>str. Number str = Integer n)"

definition host_numbers :: "(jsstring \<Rightarrow> jsnumber) \<Rightarrow> (int \<Rightarrow> jsstring) \<Rightarrow> bool" where
  \<comment> \<open>ECMAScript's guarantees about integer-valued numbers: 1 is a number, the negation of
      a number is a number, the string of a number converts back to that number, and it
      holds no white space, dot operator or slash (it is made of digits, a sign, a decimal
      point and an exponent mark)\<close>
  "host_numbers Number ToString \<longleftrightarrow>
     representable Number 1 \<and>
     (\<forall>n. representable Number n \<longrightarrow> representable Number (- n)) \<and>
     (\<forall>n. representable Number n \<longrightarrow> Number (ToString n) = Integer n) \<and>
     (\<forall>n. representable Number n \<longrightarrow>
        (\<forall>c \<in> set (ToString n). \<not> isUnitSeparatorStart c \<and> c \<noteq> SLASH))"

section \<open>The parts of a token\<close>

text \<open>
  \<open>parseSingleUnit\<close> is one function in the source. The definitions of this section name
  its parts, the text before the first caret, the number after it and the choice of prefix
  and unit, so that statements can speak of them; \<open>parseSingleUnit_decomposed\<close> below
  proves that the function is made of exactly these parts.
\<close>

definition caret_suffix :: "jsstring \<Rightarrow> jsstring" where
  \<comment> \<open>the text after the first caret of a token\<close>
  "caret_suffix unitStr = drop (Suc (length (takeWhile (\<lambda>c. c \<noteq> CARET) unitStr))) unitStr"

definition token_name :: "jsstring \<Rightarrow> jsstring" where
  \<comment> \<open>the text before the first caret of a token: \<open>prefixedUnit\<close>\<close>
  "token_name unitStr = takeWhile (\<lambda>c. c \<noteq> CARET) unitStr"

definition token_power :: "(jsstring \<Rightarrow> jsnumber) \<Rightarrow> jsstring \<Rightarrow> jsnumber" where
  \<comment> \<open>the number \<open>power\<close> of a token\<close>
  "token_power Number unitStr =
     (if CARET \<in> set unitStr then Number (caret_suffix unitStr) else Integer 1)"

definition resolve_name ::
  "(jsstring \<rightharpoonup> Unit) \<Rightarrow> jsstring \<Rightarrow> (jsstring option \<times> jsstring) option" where
  \<comment> \<open>the prefix and the unit that the branches of \<open>parseSingleUnit\<close> give to a name\<close>
  "resolve_name units name =
     (if has_property units name then Some (None, name)
      else if at_index name 0 = Some UNDERSCORE then Some (None, name)
      else if has_property (map_of prefixes) (property_key (at_index name 0)) \<and>
              (case units (drop 1 name) of Some u \<Rightarrow> prefixable u | None \<Rightarrow> False)
        then Some (Some (property_key (at_index name 0)), drop 1 name)
      else if has_property (map_of prefixes) (take 2 name) \<and>
              (case units (drop 2 name) of Some u \<Rightarrow> binaryPrefixable u | None \<Rightarrow> False)
        then Some (Some (take 2 name), drop 2 name)
      else None)"

definition nonzero_integer :: "jsnumber \<Rightarrow> bool" where
  \<comment> \<open>the negation of the test \<open>power === 0 || !Number.isInteger(power)\<close>\<close>
  "nonzero_integer x \<longleftrightarrow> (case x of Integer n \<Rightarrow> n \<noteq> 0 | NonInteger \<Rightarrow> False)"

section \<open>The tokenization of a unit name, in the words of the specification\<close>

definition is_metric_prefix :: "jsstring \<Rightarrow> bool" where
  \<comment> \<open>a one-character key of the prefix table\<close>
  "is_metric_prefix p \<longleftrightarrow> length p = 1 \<and> map_of prefixes p \<noteq> None"

definition is_binary_prefix :: "jsstring \<Rightarrow> bool" where
  \<comment> \<open>a two-character key of the prefix table\<close>
  "is_binary_prefix p \<longleftrightarrow> length p = 2 \<and> map_of prefixes p \<noteq> None"

definition spec_tokenize ::
  "(jsstring \<rightharpoonup> Unit) \<Rightarrow> jsstring \<Rightarrow> (jsstring option \<times> jsstring) option" where
  \<comment> \<open>steps 2a to 2d and 3 of the single-unit tokenization of the specification;
      \<open>None\<close> is the failure UnknownUnit\<close>
  "spec_tokenize units name =
     (if units name \<noteq> None then Some (None, name)
      else if take 1 name = [UNDERSCORE] then Some (None, name)
      else if is_metric_prefix (take 1 name) \<and>
              (case units (drop 1 name) of Some u \<Rightarrow> prefixable u | None \<Rightarrow> False)
        then Some (Some (take 1 name), drop 1 name)
      else if is_binary_prefix (take 2 name) \<and>
              (case units (drop 2 name) of Some u \<Rightarrow> binaryPrefixable u | None \<Rightarrow> False)
        then Some (Some (take 2 name), drop 2 name)
      else None)"

section \<open>The formatter, in the words of the specification\<close>

definition spec_entry :: "(int \<Rightarrow> jsstring) \<Rightarrow> ParsedUnit \<Rightarrow> jsstring" where
  \<comment> \<open>prefix, unit, and a caret with the absolute value of the power only when that is
      not 1\<close>
  "spec_entry ToString u =
     prefix_or_empty u @ p_unit u @
     (if \<bar>p_power u\<bar> \<noteq> 1 then CARET # ToString \<bar>p_power u\<bar> else [])"

definition spec_toUnitString :: "(int \<Rightarrow> jsstring) \<Rightarrow> ParsedUnit list \<Rightarrow> jsstring" where
  \<comment> \<open>the entries of positive power and those of negative power, each side joined by the
      dot operator, the two sides joined by one slash when both are non-empty\<close>
  "spec_toUnitString ToString units =
     (let numerator = map (spec_entry ToString) (filter (\<lambda>u. p_power u > 0) units);
          denominator = map (spec_entry ToString) (filter (\<lambda>u. p_power u < 0) units)
      in
      if numerator \<noteq> [] \<and> denominator \<noteq> [] then
        join [DOT_OPERATOR] numerator @ [SLASH] @ join [DOT_OPERATOR] denominator
      else join [DOT_OPERATOR] (numerator @ denominator))"

definition signed_entry :: "(int \<Rightarrow> jsstring) \<Rightarrow> ParsedUnit \<Rightarrow> jsstring" where
  \<comment> \<open>an entry of the formatter's special case: the power is always written, with its sign\<close>
  "signed_entry ToString u = prefix_or_empty u @ p_unit u @ CARET # ToString (p_power u)"

section \<open>What the parser returns\<close>

definition SPACE :: codeunit where "SPACE = 32"

definition unit_text :: "ParsedUnit \<Rightarrow> jsstring" where
  \<comment> \<open>\<open>(u.prefix ?? "") + u.unit\<close>\<close>
  "unit_text u = prefix_or_empty u @ p_unit u"

definition reparsable ::
  "(jsstring \<Rightarrow> jsnumber) \<Rightarrow> (jsstring \<rightharpoonup> Unit) \<Rightarrow> ParsedUnit \<Rightarrow> bool" where
  \<comment> \<open>what holds of every unit the parser returns: its text is read back as the same
      prefix and unit, holds no caret, separator or slash, and its power is a nonzero
      number of the host\<close>
  "reparsable Number units u \<longleftrightarrow>
     resolve_name units (unit_text u) = Some (p_prefix u, p_unit u) \<and>
     (\<forall>c \<in> set (unit_text u). c \<noteq> CARET \<and> \<not> isUnitSeparatorStart c \<and> c \<noteq> SLASH) \<and>
     p_power u \<noteq> 0 \<and> representable Number (p_power u)"

definition negated :: "ParsedUnit \<Rightarrow> ParsedUnit" where
  \<comment> \<open>the unit with its exponent negated\<close>
  "negated x = x \<lparr> p_power := - p_power x \<rparr>"

section \<open>Properties of the Dimensions class\<close>

lemma every_indexed_iff:
  "every_indexed p a \<longleftrightarrow> (\<forall>i < length a. p (a ! i) i a)"
  by (auto simp: every_indexed_def list_all_iff)

lemma isSorted_iff_sorted_wrt: "isSorted names \<longleftrightarrow> sorted_wrt (<) names"
proof -
  have "isSorted names \<longleftrightarrow> (\<forall>i. Suc i < length names \<longrightarrow> names ! i < names ! Suc i)"
  proof
    assume h: "isSorted names"
    show "\<forall>i. Suc i < length names \<longrightarrow> names ! i < names ! Suc i"
    proof (intro allI impI)
      fix i assume "Suc i < length names"
      with h have "Suc i = 0 \<or> names ! Suc i > names ! (Suc i - 1)"
        unfolding isSorted_def every_indexed_iff by blast
      then show "names ! i < names ! Suc i" by simp
    qed
  next
    assume h: "\<forall>i. Suc i < length names \<longrightarrow> names ! i < names ! Suc i"
    show "isSorted names"
      unfolding isSorted_def every_indexed_iff
    proof (intro allI impI)
      fix i assume "i < length names"
      show "i = 0 \<or> names ! i > names ! (i - 1)"
      proof (cases i)
        case 0
        then show ?thesis by simp
      next
        case (Suc j)
        with h \<open>i < length names\<close> show ?thesis by simp
      qed
    qed
  qed
  also have "\<dots> \<longleftrightarrow> sorted_wrt (<) names"
    by (rule sorted_wrt_iff_nth_Suc_transp [symmetric]) (rule transp_on_less)
  finally show ?thesis .
qed

lemma new_Dimensions_cases:
  "new_Dimensions dims names off =
     (if 8 \<le> length dims \<and>
         length dims = 8 + (case names of None \<Rightarrow> 0 | Some ns \<Rightarrow> length ns) \<and>
         (case names of None \<Rightarrow> True | Some ns \<Rightarrow> sorted_wrt (<) ns)
      then Inr \<lparr> dimensions = dims, customDimensionNames = names,
                 offset = (case off of None \<Rightarrow> 0 | Some x \<Rightarrow> x) \<rparr>
      else Inl InvalidDimensions)"
  by (cases names)
     (auto simp: new_Dimensions_def numBasicDimensions_def Let_def isSorted_iff_sorted_wrt)

text \<open>
  Claim C7, as the code has it. The constructor succeeds exactly when the exponent vector
  has at least 8 entries, its length is 8 plus the number of custom dimension names, and
  the names are strictly ascending (sorted, no duplicates); it then holds the arguments
  unchanged, with offset 0 when none is given. Every violation throws the error of kind
  InvalidDimensions. No upper bound on the length is checked: the limit of 12 entries and
  4 names is the tuple type of the parameters only.
\<close>

theorem new_Dimensions_succeeds_iff:
  "new_Dimensions dims names off =
     (if 8 \<le> length dims \<and>
         length dims = 8 + (case names of None \<Rightarrow> 0 | Some ns \<Rightarrow> length ns) \<and>
         (case names of None \<Rightarrow> True | Some ns \<Rightarrow> sorted ns \<and> distinct ns)
      then Inr \<lparr> dimensions = dims, customDimensionNames = names,
                 offset = (case off of None \<Rightarrow> 0 | Some x \<Rightarrow> x) \<rparr>
      else Inl InvalidDimensions)"
  unfolding new_Dimensions_cases strict_sorted_iff ..

theorem new_Dimensions_succeeds_iff_witness:
  "new_Dimensions [0, 0, -1, 0, 0, 0, 0, 0, -1, 1] (Some [js ''dir'', js ''pax'']) None =
     Inr \<lparr> dimensions = [0, 0, -1, 0, 0, 0, 0, 0, -1, 1],
           customDimensionNames = Some [js ''dir'', js ''pax''], offset = 0 \<rparr> \<and>
   new_Dimensions [0, 0, -1, 0, 0, 0, 0, 0, -1, 1] (Some [js ''pax'', js ''dir'']) None =
     Inl InvalidDimensions \<and>
   new_Dimensions [0, 0, -1, 0, 0, 0, 0, 0, -1, 1] (Some [js ''pax'', js ''pax'']) None =
     Inl InvalidDimensions \<and>
   new_Dimensions [0, 0, -1, 0, 0, 0, 0, 0, -1] (Some [js ''dir'', js ''pax'']) None =
     Inl InvalidDimensions \<and>
   new_Dimensions [0, 0, -1, 0, 0, 0, 0] None (Some 0) = Inl InvalidDimensions"
  by (simp add: new_Dimensions_succeeds_iff js_def)

text \<open>
  Counterexample to claim C7 as stated: a vector of 13 exponents with 5 ascending names
  is outside the range 8 to 12, and the constructor accepts it.
\<close>

theorem new_Dimensions_length_13_accepted:
  "new_Dimensions [0, 0, 0, 0, 0, 0, 0, 0, 1, 1, 1, 1, 1]
       (Some [js ''a'', js ''b'', js ''c'', js ''d'', js ''e'']) None =
     Inr \<lparr> dimensions = [0, 0, 0, 0, 0, 0, 0, 0, 1, 1, 1, 1, 1],
           customDimensionNames = Some [js ''a'', js ''b'', js ''c'', js ''d'', js ''e''],
           offset = 0 \<rparr> \<and>
   \<not> length [0, 0, 0, 0, 0, 0, 0, 0, 1, 1, 1, 1, 1 :: int] \<le> 12"
  by (simp add: new_Dimensions_cases js_def)

lemma every_indexed_at_index:
  assumes "length xs = length ys"
  shows "every_indexed (\<lambda>x i a. Some x = at_index ys i) xs \<longleftrightarrow> xs = ys"
  using assms by (auto simp: every_indexed_iff at_index_def list_eq_iff_nth_eq)

lemma equalTo_equal:
  "equalTo a b \<longleftrightarrow>
     dimensions a = dimensions b \<and>
     customDimensionNames a = customDimensionNames b \<and>
     offset a = offset b"
proof (cases "customDimensionNames a")
  case None
  then show ?thesis
    by (cases "customDimensionNames b")
       (auto simp: equalTo_def every_indexed_at_index)
next
  case (Some names)
  show ?thesis
  proof (cases "customDimensionNames b")
    case None
    with Some show ?thesis by (simp add: equalTo_def)
  next
    case (Some others)
    with \<open>customDimensionNames a = Some names\<close> show ?thesis
      by (auto simp: equalTo_def every_indexed_at_index)
  qed
qed

text \<open>
  Claim C8. \<open>a.equalTo(b)\<close> is true if and only if the exponent vectors are equal
  element by element, the custom dimension names are equal (both absent, or both present
  and equal), and the offsets are equal.
\<close>

theorem equalTo_iff:
  "equalTo a b \<longleftrightarrow>
     dimensions a = dimensions b \<and>
     customDimensionNames a = customDimensionNames b \<and>
     offset a = offset b"
  by (rule equalTo_equal)

theorem equalTo_iff_witness:
  "equalTo (unit_d (plain (1 / 3600)
              \<lparr> dimensions = [0, 0, -1, 0, 0, 0, 0, 0, -1, 1],
                customDimensionNames = Some [js ''dir'', js ''pax''], offset = 0 \<rparr>))
           \<lparr> dimensions = [0, 0, -1, 0, 0, 0, 0, 0, -1, 1],
             customDimensionNames = Some [js ''dir'', js ''pax''], offset = 0 \<rparr> \<and>
   \<not> equalTo MASS_DIMENSION DIST_DIMENSION \<and>
   \<not> equalTo TEMP_DIMENSION (TEMP_DIMENSION \<lparr> offset := 273.15 \<rparr>) \<and>
   \<not> equalTo Dimensionless (Dimensionless \<lparr> customDimensionNames := Some [] \<rparr>)"
  by (simp add: equalTo_iff plain_def basic_def js_def Dimensionless_def
        MASS_DIMENSION_def DIST_DIMENSION_def TEMP_DIMENSION_def)

text \<open>
  Claim C10. For a symbol of the built-in unit table, \<open>getUnitData\<close> returns the built-in
  descriptor, whatever \<open>additionalUnits\<close> holds for that symbol.
\<close>

theorem getUnitData_builtIn_first:
  assumes "map_of builtInUnits symbol = Some u"
  shows "getUnitData symbol additionalUnits = Inr (Own u)"
  using assms by (simp add: getUnitData_def get_property_def)

lemma builtInUnits_m: "map_of builtInUnits (js ''m'') = Some (metric 1 DIST_DIMENSION)"
  by (simp add: builtInUnits_def js_def)

theorem getUnitData_builtIn_first_witness:
  "map_of builtInUnits (js ''m'') = Some (metric 1 DIST_DIMENSION) \<and>
   getUnitData (js ''m'') (Some [js ''m'' \<mapsto> plain 1000 MASS_DIMENSION]) =
     Inr (Own (metric 1 DIST_DIMENSION))"
  using getUnitData_builtIn_first [OF builtInUnits_m] builtInUnits_m by simp

section \<open>Splitting and joining strings\<close>

lemma split_slash_not_Nil: "split_slash str \<noteq> []"
  by (induction str) (auto split: list.splits)

lemma split_slash_no_slash: "SLASH \<notin> set str \<Longrightarrow> split_slash str = [str]"
  by (induction str) auto

lemma split_slash_at_first:
  "SLASH \<notin> set a \<Longrightarrow> split_slash (a @ SLASH # b) = a # split_slash b"
  by (induction a) auto

lemma split_slash_pieces: "p \<in> set (split_slash str) \<Longrightarrow> set p \<subseteq> set str - {SLASH}"
proof (induction str arbitrary: p)
  case Nil
  then show ?case by simp
next
  case (Cons c cs)
  show ?case
  proof (cases "c = SLASH")
    case True
    with Cons show ?thesis by auto
  next
    case False
    obtain q qs where q: "split_slash cs = q # qs"
      using split_slash_not_Nil [of cs] by (cases "split_slash cs") auto
    with Cons.prems False have "p = c # q \<or> p \<in> set qs" by auto
    then show ?thesis
    proof
      assume "p = c # q"
      moreover have "set q \<subseteq> set cs - {SLASH}" using Cons.IH [of q] q by simp
      ultimately show ?thesis using False by auto
    next
      assume "p \<in> set qs"
      then have "set p \<subseteq> set cs - {SLASH}" using Cons.IH [of p] q by simp
      then show ?thesis by auto
    qed
  qed
qed

lemma split_slash_length_one: "length (split_slash str) = 1 \<longleftrightarrow> SLASH \<notin> set str"
proof (induction str)
  case Nil
  then show ?case by simp
next
  case (Cons c cs)
  obtain q qs where q: "split_slash cs = q # qs"
    using split_slash_not_Nil [of cs] by (cases "split_slash cs") auto
  with Cons show ?case by auto
qed

lemma isWhiteSpace_DOT_OPERATOR [simp]: "\<not> isWhiteSpace DOT_OPERATOR"
  by (simp add: isWhiteSpace_def DOT_OPERATOR_def)

lemma isUnitSeparatorStart_DOT_OPERATOR [simp]: "isUnitSeparatorStart DOT_OPERATOR"
  by (simp add: isUnitSeparatorStart_def)

lemma split_UNIT_SEPARATOR_no_separator:
  assumes "\<forall>c \<in> set str. \<not> isUnitSeparatorStart c"
  shows "split_UNIT_SEPARATOR str = [str]"
proof -
  have tw: "takeWhile (\<lambda>c. \<not> isUnitSeparatorStart c) str = str"
    using assms by (simp add: takeWhile_eq_all_conv)
  have dw: "dropWhile (\<lambda>c. \<not> isUnitSeparatorStart c) str = []"
    using assms by (simp add: dropWhile_eq_Nil_conv)
  show ?thesis
    by (subst split_UNIT_SEPARATOR.simps) (simp add: tw dw)
qed

lemma split_UNIT_SEPARATOR_at_dot:
  assumes "\<forall>c \<in> set a. \<not> isUnitSeparatorStart c"
  shows "split_UNIT_SEPARATOR (a @ DOT_OPERATOR # b) = a # split_UNIT_SEPARATOR b"
proof -
  have tw: "takeWhile (\<lambda>c. \<not> isUnitSeparatorStart c) (a @ DOT_OPERATOR # b) = a"
    using assms by simp
  have dw: "dropWhile (\<lambda>c. \<not> isUnitSeparatorStart c) (a @ DOT_OPERATOR # b) = DOT_OPERATOR # b"
    using assms by simp
  show ?thesis
    by (subst split_UNIT_SEPARATOR.simps) (simp add: tw dw)
qed

lemma split_UNIT_SEPARATOR_not_Nil: "split_UNIT_SEPARATOR str \<noteq> []"
  by (subst split_UNIT_SEPARATOR.simps) (simp add: Let_def split: list.splits)

lemma split_UNIT_SEPARATOR_pieces:
  "p \<in> set (split_UNIT_SEPARATOR str) \<Longrightarrow>
     set p \<subseteq> set str \<and> (\<forall>c \<in> set p. \<not> isUnitSeparatorStart c)"
proof (induction str arbitrary: p rule: split_UNIT_SEPARATOR.induct)
  case (1 str)
  let ?piece = "takeWhile (\<lambda>c. \<not> isUnitSeparatorStart c) str"
  have piece: "set ?piece \<subseteq> set str \<and> (\<forall>c \<in> set ?piece. \<not> isUnitSeparatorStart c)"
    using set_takeWhileD [of _ "\<lambda>c. \<not> isUnitSeparatorStart c" str] by blast
  show ?case
  proof (cases "dropWhile (\<lambda>c. \<not> isUnitSeparatorStart c) str")
    case Nil
    with "1.prems" have "p = ?piece"
      by (subst (asm) split_UNIT_SEPARATOR.simps) simp
    with piece show ?thesis by simp
  next
    case (Cons c cs)
    let ?rest = "if isWhiteSpace c then dropWhile isWhiteSpace cs else cs"
    from Cons "1.prems" have "p = ?piece \<or> p \<in> set (split_UNIT_SEPARATOR ?rest)"
      by (subst (asm) split_UNIT_SEPARATOR.simps) (simp add: Let_def)
    then show ?thesis
    proof
      assume "p = ?piece"
      with piece show ?thesis by simp
    next
      assume "p \<in> set (split_UNIT_SEPARATOR ?rest)"
      then have ih: "set p \<subseteq> set ?rest \<and> (\<forall>c \<in> set p. \<not> isUnitSeparatorStart c)"
        using "1.IH" [OF refl Cons] by simp
      have "set ?rest \<subseteq> set cs"
        using set_dropWhileD [of _ isWhiteSpace cs] by auto
      moreover have "set cs \<subseteq> set str"
        using set_dropWhileD [of _ "\<lambda>c. \<not> isUnitSeparatorStart c" str] Cons by auto
      ultimately show ?thesis using ih by blast
    qed
  qed
qed

lemma split_UNIT_SEPARATOR_join:
  assumes "toks \<noteq> []" and "\<forall>t \<in> set toks. \<forall>c \<in> set t. \<not> isUnitSeparatorStart c"
  shows "split_UNIT_SEPARATOR (join [DOT_OPERATOR] toks) = toks"
  using assms
proof (induction toks)
  case Nil
  then show ?case by simp
next
  case (Cons p ps)
  show ?case
  proof (cases ps)
    case Nil
    with Cons.prems show ?thesis by (simp add: split_UNIT_SEPARATOR_no_separator)
  next
    case (Cons q qs)
    with Cons.IH Cons.prems have "split_UNIT_SEPARATOR (join [DOT_OPERATOR] ps) = ps" by simp
    with Cons Cons.prems show ?thesis by (simp add: split_UNIT_SEPARATOR_at_dot)
  qed
qed

lemma set_join: "set (join sep toks) \<subseteq> set sep \<union> \<Union> (set ` set toks)"
  by (induction sep toks rule: join.induct) auto

lemma trim_no_white_space:
  assumes "\<forall>c \<in> set str. \<not> isWhiteSpace c"
  shows "trim str = str"
proof -
  have "dropWhile isWhiteSpace str = str"
    using assms by (cases str) auto
  moreover have "\<forall>c \<in> set (rev str). \<not> isWhiteSpace c"
    using assms by simp
  then have "dropWhile isWhiteSpace (rev str) = rev str"
    by (cases "rev str") auto
  ultimately show ?thesis by (simp add: trim_def)
qed

lemma trim_white_space:
  assumes "\<forall>c \<in> set str. isWhiteSpace c"
  shows "trim str = []"
  using assms by (auto simp: trim_def dest: set_dropWhileD)

lemma set_trim: "set (trim str) \<subseteq> set str"
proof -
  have "set (trim str) = set (dropWhile isWhiteSpace (rev (dropWhile isWhiteSpace str)))"
    by (simp add: trim_def)
  also have "\<dots> \<subseteq> set (rev (dropWhile isWhiteSpace str))"
    using set_dropWhileD by fastforce
  also have "\<dots> \<subseteq> set str"
    using set_dropWhileD [of _ isWhiteSpace str] by auto
  finally show ?thesis .
qed

section \<open>The host's conversion of a string to a number\<close>

text \<open>
  The integers that \<open>StringToNumber\<close> returns are the integers that a double holds
  (\<open>double_integer\<close>), and of such an integer written as a signed integer literal it
  returns the integer itself: rounding to the nearest double leaves a double as it is. In
  particular the host's conversions satisfy \<open>host_numbers\<close>.
\<close>

lemma digits_of_digits: "digits_of n \<noteq> [] \<and> (\<forall>c \<in> set (digits_of n). isDigit c)"
proof (induction n rule: digits_of.induct)
  case (1 n)
  show ?case
  proof (cases "n < 10")
    case True
    then show ?thesis
      by (subst (1 2) digits_of.simps) (simp add: isDigit_def)
  next
    case False
    have "n mod 10 < 10" by simp
    then have "isDigit (48 + n mod 10)"
      unfolding isDigit_def by linarith
    with False "1.IH" show ?thesis
      by (subst (1 2) digits_of.simps) simp
  qed
qed

lemma ToString_decimal_chars:
  "\<forall>c \<in> set (ToString_decimal n). \<not> isUnitSeparatorStart c \<and> c \<noteq> SLASH \<and> c \<noteq> SPACE"
proof -
  have "\<not> isUnitSeparatorStart c \<and> c \<noteq> SLASH \<and> c \<noteq> SPACE" if "isDigit c \<or> c = 45" for c
    using that
    by (auto simp: isDigit_def isUnitSeparatorStart_def isWhiteSpace_def DOT_OPERATOR_def
          SLASH_def SPACE_def)
  then show ?thesis
    using digits_of_digits [of "nat n"] digits_of_digits [of "nat (- n)"]
    by (auto simp: ToString_decimal_def)
qed

lemma bit_length_zero: "bit_length 0 = 0"
  by (simp add: bit_length.simps)

lemma bit_length_positive: "0 < n \<Longrightarrow> bit_length n = Suc (bit_length (n div 2))"
  by (subst bit_length.simps) simp

lemma bit_length_bounds:
  "0 < n \<Longrightarrow> 2 ^ (bit_length n - 1) \<le> n \<and> n < 2 ^ bit_length n"
proof (induction n rule: bit_length.induct)
  case (1 n)
  show ?case
  proof (cases "n div 2 = 0")
    case True
    with \<open>0 < n\<close> have "n = 1" by (simp add: div_eq_0_iff)
    then show ?thesis
      by (simp add: bit_length_positive bit_length_zero)
  next
    case False
    then have half: "0 < n div 2" by simp
    with "1.IH" \<open>0 < n\<close> have IH:
      "2 ^ (bit_length (n div 2) - 1) \<le> n div 2" "n div 2 < 2 ^ bit_length (n div 2)"
      by simp_all
    have "0 < bit_length (n div 2)"
      using half by (simp add: bit_length_positive)
    then have "(2 :: nat) ^ bit_length (n div 2) = 2 * 2 ^ (bit_length (n div 2) - 1)"
      by (cases "bit_length (n div 2)") simp_all
    moreover have "bit_length n = Suc (bit_length (n div 2))"
      using \<open>0 < n\<close> by (rule bit_length_positive)
    ultimately show ?thesis
      using IH by simp linarith
  qed
qed

lemma bit_length_le: "n < 2 ^ L \<Longrightarrow> bit_length n \<le> L"
proof (induction L arbitrary: n)
  case 0
  then show ?case by (simp add: bit_length_zero)
next
  case (Suc L)
  show ?case
  proof (cases "n = 0")
    case True
    then show ?thesis by (simp add: bit_length_zero)
  next
    case False
    from Suc.prems have "n div 2 < 2 ^ L" by simp
    then have "bit_length (n div 2) \<le> L" by (rule Suc.IH)
    with False show ?thesis by (simp add: bit_length_positive)
  qed
qed

lemma bit_length_times_power: "0 < m \<Longrightarrow> bit_length (m * 2 ^ k) = bit_length m + k"
proof (induction k)
  case 0
  then show ?case by simp
next
  case (Suc k)
  have "bit_length (m * 2 ^ Suc k) = Suc (bit_length (m * 2 ^ Suc k div 2))"
    using Suc.prems by (intro bit_length_positive) simp
  also have "m * 2 ^ Suc k div 2 = m * 2 ^ k" by simp
  finally show ?case using Suc by simp
qed

lemma floor_log2_of_natural:
  assumes "0 < v"
  shows "floor_log2 v 1 = int (bit_length v) - 1"
proof -
  have one: "bit_length (Suc 0) = Suc 0"
    by (simp add: bit_length_positive bit_length_zero)
  have "0 < bit_length v"
    using assms by (simp add: bit_length_positive)
  moreover have "2 ^ (bit_length v - 1) \<le> v"
    using bit_length_bounds [OF assms] by simp
  ultimately show ?thesis
    by (simp add: floor_log2_def Let_def one nat_diff_distrib)
qed

lemma floor_log2_upper:
  assumes "0 < a" "0 < b"
  shows "real a / real b < 2 powi (floor_log2 a b + 1)"
proof -
  let ?d = "int (bit_length a) - int (bit_length b)"
  have a: "real a < 2 ^ bit_length a"
    using bit_length_bounds [OF assms(1)]
    by (metis of_nat_less_iff of_nat_numeral of_nat_power)
  have "0 < bit_length b"
    using assms(2) by (simp add: bit_length_positive)
  have "2 ^ (bit_length b - 1) \<le> b"
    using bit_length_bounds [OF assms(2)] by simp
  then have b: "(2 :: real) ^ (bit_length b - 1) \<le> real b"
    by (metis of_nat_le_iff of_nat_numeral of_nat_power)
  have positive: "0 < real b" using assms(2) by simp
  show ?thesis
  proof (cases "if 0 \<le> ?d then b * 2 ^ nat ?d \<le> a else b \<le> a * 2 ^ nat (- ?d)")
    case True
    then have e: "floor_log2 a b = ?d" by (simp add: floor_log2_def Let_def)
    have "real a / real b < 2 ^ bit_length a / 2 ^ (bit_length b - 1)"
      using a b positive by (intro frac_less) simp_all
    also have "\<dots> = 2 powi (int (bit_length a) - int (bit_length b - 1))"
      by (simp add: power_int_diff)
    also have "int (bit_length a) - int (bit_length b - 1) = ?d + 1"
      using \<open>0 < bit_length b\<close> by (simp add: of_nat_diff)
    finally show ?thesis by (simp add: e)
  next
    case False
    then have e: "floor_log2 a b = ?d - 1" by (simp add: floor_log2_def Let_def)
    have "real a / real b < 2 powi ?d"
    proof (cases "0 \<le> ?d")
      case True
      with False have "a < b * 2 ^ nat ?d" by simp
      then have "real a < real b * 2 ^ nat ?d"
        by (metis of_nat_less_iff of_nat_mult of_nat_numeral of_nat_power)
      then have "real a / real b < 2 ^ nat ?d"
        using positive by (simp add: field_simps)
      then show ?thesis using True by (simp add: power_int_def)
    next
      case negative: False
      with False have "a * 2 ^ nat (- ?d) < b" by simp
      then have "real a * 2 ^ nat (- ?d) < real b"
        by (metis of_nat_less_iff of_nat_mult of_nat_numeral of_nat_power)
      then have "real a / real b < inverse (2 ^ nat (- ?d))"
        using positive by (simp add: field_simps)
      then show ?thesis using negative by (simp add: power_int_def power_one_over field_simps)
    qed
    then show ?thesis by (simp add: e)
  qed
qed

lemma round_half_even_le:
  assumes "0 < q" "p < q * 2 ^ 53"
  shows "round_half_even p q \<le> 2 ^ 53"
proof -
  have "p div q < 2 ^ 53"
    using assms by (simp add: less_mult_imp_div_less mult.commute)
  then show ?thesis
    by (simp add: round_half_even_def Let_def)
qed

lemma round_half_even_exact: "0 < q \<Longrightarrow> q dvd p \<Longrightarrow> round_half_even p q = p div q"
  by (simp add: round_half_even_def Let_def)

lemma significand_bound:
  assumes "0 < a" "0 < b" and k: "floor_log2 a b - 52 \<le> k"
  shows "if 0 \<le> k then a < (b * 2 ^ nat k) * 2 ^ 53 else a * 2 ^ nat (- k) < b * 2 ^ 53"
proof -
  have positive: "0 < real b" using assms(2) by simp
  have "real a / real b < 2 powi (floor_log2 a b + 1)"
    using assms(1,2) by (rule floor_log2_upper)
  also have "\<dots> \<le> 2 powi (k + 53)"
    using k by (intro power_int_increasing) simp_all
  finally have below: "real a / real b < 2 powi (k + 53)" .
  show ?thesis
  proof (cases "0 \<le> k")
    case True
    then have "nat (k + 53) = nat k + 53" by simp
    with True have "(2 :: real) powi (k + 53) = 2 ^ nat k * 2 ^ 53"
      by (simp add: power_int_def power_add)
    with below have "real a < real (b * 2 ^ nat k * 2 ^ 53)"
      using positive by (simp add: field_simps)
    then show ?thesis
      using True by (simp only: of_nat_less_iff if_True)
  next
    case False
    have "(2 :: real) powi (k + 53) = 2 powi k * 2 powi 53"
      by (rule power_int_add) simp
    moreover have "(2 :: real) powi k = 1 / 2 ^ nat (- k)"
      using False by (simp add: power_int_def power_one_over)
    moreover have "(2 :: real) powi 53 = 2 ^ 53"
      by (simp add: power_int_def)
    ultimately have "(2 :: real) powi (k + 53) = 2 ^ 53 / 2 ^ nat (- k)"
      by simp
    with below have "real (a * 2 ^ nat (- k)) < real (b * 2 ^ 53)"
      using positive by (simp add: field_simps)
    then show ?thesis
      using False by (simp only: of_nat_less_iff if_False)
  qed
qed

lemma double_integer_natural:
  "double_integer (int v) \<longleftrightarrow> v < 2 ^ 1024 \<and> 2 ^ (bit_length v - 53) dvd v"
  by (simp add: double_integer_def)

lemma double_integer_minus: "double_integer (- n) \<longleftrightarrow> double_integer n"
  by (simp add: double_integer_def)

lemma double_integer_small:
  assumes "v < 2 ^ 53"
  shows "double_integer (int v)"
proof -
  have "bit_length v \<le> 53"
    using assms by (rule bit_length_le)
  moreover have "v < 2 ^ 1024"
    using assms by (rule less_trans) simp
  ultimately show ?thesis
    by (simp add: double_integer_natural)
qed

lemma double_integer_scaled:
  assumes "m \<le> 2 ^ 53" "m * 2 ^ k < 2 ^ 1024"
  shows "double_integer (int (m * 2 ^ k))"
proof -
  consider "m = 0" | "m = 2 ^ 53" | "0 < m" "m < 2 ^ 53"
    using assms(1) by linarith
  then have "2 ^ (bit_length (m * 2 ^ k) - 53) dvd m * 2 ^ k"
  proof cases
    case 1
    then show ?thesis by simp
  next
    case 2
    have "bit_length (1 * 2 ^ (53 + k)) = bit_length 1 + (53 + k)"
      by (rule bit_length_times_power) simp
    then have "bit_length (m * 2 ^ k) = 54 + k"
      by (simp add: 2 power_add bit_length_positive bit_length_zero)
    then show ?thesis
      by (simp add: 2 flip: power_add)
  next
    case 3
    have "bit_length m \<le> 53"
      using 3(2) by (rule bit_length_le)
    then have "bit_length (m * 2 ^ k) - 53 \<le> k"
      using 3(1) by (simp add: bit_length_times_power)
    then have "(2 :: nat) ^ (bit_length (m * 2 ^ k) - 53) dvd 2 ^ k"
      by (rule le_imp_power_dvd)
    then show ?thesis
      by (rule dvd_mult)
  qed
  with assms(2) show ?thesis
    unfolding double_integer_natural by simp
qed

lemma integer_of_nearest_double_holds:
  assumes "integer_of_nearest_double a b = Some v" "0 < b"
  shows "double_integer (int v)"
proof (cases "a = 0")
  case True
  with assms(1) have "v = 0"
    by (simp add: integer_of_nearest_double_def)
  then show ?thesis
    by (simp add: double_integer_def bit_length_zero)
next
  case False
  define k where "k = max (floor_log2 a b - 52) (- 1074)"
  have bound: "if 0 \<le> k then a < (b * 2 ^ nat k) * 2 ^ 53 else a * 2 ^ nat (- k) < b * 2 ^ 53"
    using False assms(2) by (intro significand_bound) (simp_all add: k_def)
  show ?thesis
  proof (cases "0 \<le> k")
    case True
    define m where "m = round_half_even a (b * 2 ^ nat k)"
    from assms(1) False True have v: "v = m * 2 ^ nat k" "m * 2 ^ nat k < 2 ^ 1024"
      by (simp_all add: integer_of_nearest_double_def Let_def m_def flip: k_def
            split: if_splits)
    have "m \<le> 2 ^ 53"
      unfolding m_def using bound True assms(2) by (intro round_half_even_le) simp_all
    then show ?thesis
      unfolding v(1) using v(2) by (rule double_integer_scaled)
  next
    case negative: False
    define m where "m = round_half_even (a * 2 ^ nat (- k)) b"
    from assms(1) False negative have v: "v = m div 2 ^ nat (- k)" "2 ^ nat (- k) dvd m"
      by (simp_all add: integer_of_nearest_double_def Let_def m_def flip: k_def
            split: if_splits)
    have "m \<le> 2 ^ 53"
      unfolding m_def using bound negative assms(2) by (intro round_half_even_le) simp_all
    moreover obtain j where j: "nat (- k) = Suc j"
      using negative by (cases "nat (- k)") simp_all
    ultimately have "v \<le> 2 ^ 53 div 2"
      unfolding v(1) j
      by (metis div_le_mono div_mult2_eq div_le_dividend le_trans power_Suc)
    then have "v < 2 ^ 53" by simp
    then show ?thesis
      by (rule double_integer_small)
  qed
qed

lemma integer_of_nearest_double_integer:
  assumes "double_integer (int v)"
  shows "integer_of_nearest_double v 1 = Some v"
proof (cases "v = 0")
  case True
  then show ?thesis by (simp add: integer_of_nearest_double_def)
next
  case False
  then have positive: "0 < v" by simp
  define L where "L = bit_length v"
  have "0 < L"
    using positive by (simp add: L_def bit_length_positive)
  have k: "max (floor_log2 v (Suc 0) - 52) (- 1074) = int L - 53"
    using \<open>0 < L\<close> floor_log2_of_natural [OF positive] by (simp add: L_def)
  from assms have v: "v < 2 ^ 1024" "2 ^ (L - 53) dvd v"
    by (simp_all add: double_integer_natural L_def)
  show ?thesis
  proof (cases "53 \<le> L")
    case True
    then have "nat (int L - 53) = L - 53" by simp
    moreover have "round_half_even v (2 ^ (L - 53)) * 2 ^ (L - 53) = v"
      using v(2) by (simp add: round_half_even_exact)
    ultimately show ?thesis
      using False True v(1) by (simp add: integer_of_nearest_double_def Let_def k)
  next
    case small: False
    then have "nat (- (int L - 53)) = 53 - L" by simp
    moreover have "round_half_even (v * 2 ^ (53 - L)) 1 = v * 2 ^ (53 - L)"
      by (simp add: round_half_even_exact)
    ultimately show ?thesis
      using False small by (simp add: integer_of_nearest_double_def Let_def k)
  qed
qed

lemma digits_value_digits_of: "digits_value 10 (digits_of n) = n"
proof (induction n rule: digits_of.induct)
  case (1 n)
  show ?case
  proof (cases "n < 10")
    case True
    then show ?thesis
      by (subst digits_of.simps) (simp add: digits_value_def digit_value_def)
  next
    case False
    have "n mod 10 < 10" by simp
    then have "digit_value (48 + n mod 10) = n mod 10"
      unfolding digit_value_def by simp
    with False "1.IH" show ?thesis
      by (subst digits_of.simps) (simp add: digits_value_def)
  qed
qed

lemma isDigit_not_white_space: "isDigit c \<Longrightarrow> \<not> isWhiteSpace c \<and> c \<noteq> 43 \<and> c \<noteq> 45 \<and> c \<noteq> 73"
  by (auto simp: isDigit_def isWhiteSpace_def)

lemma StrUnsignedDecimalLiteral_digits:
  assumes "ds \<noteq> []" "list_all isDigit ds"
  shows "StrUnsignedDecimalLiteral ds = Finite (digits_value 10 ds) 0"
proof -
  have other: "ds \<noteq> js ''Infinity''"
    using assms(2) by (auto simp: js_def isDigit_def)
  have run: "takeWhile isDigit ds = ds" "dropWhile isDigit ds = []"
    using assms(2) by (simp_all add: list_all_iff)
  show ?thesis
    using assms(1) other
    by (simp add: StrUnsignedDecimalLiteral_def Let_def ExponentPart_def run)
qed

lemma SignedInteger_cases:
  assumes "SignedInteger str = Some n"
  obtains ds where "ds \<noteq> []" "list_all isDigit ds" "str = ds" "n = int (digits_value 10 ds)"
  | ds where "ds \<noteq> []" "list_all isDigit ds" "str = 43 # ds" "n = int (digits_value 10 ds)"
  | ds where "ds \<noteq> []" "list_all isDigit ds" "str = 45 # ds" "n = - int (digits_value 10 ds)"
proof (cases str)
  case Nil
  with assms show ?thesis by (simp add: SignedInteger_def)
next
  case (Cons c cs)
  consider "c = 43" | "c = 45" | "c \<noteq> 43" "c \<noteq> 45" by blast
  then show ?thesis
  proof cases
    case 1
    with assms Cons that(2) [of cs] show ?thesis
      by (simp add: SignedInteger_def Let_def split: if_splits)
  next
    case 2
    with assms Cons that(3) [of cs] show ?thesis
      by (simp add: SignedInteger_def Let_def split: if_splits)
  next
    case 3
    with assms Cons that(1) [of str] show ?thesis
      by (simp add: SignedInteger_def Let_def split: if_splits)
  qed
qed

lemma StringToNumber_digits:
  assumes "ds \<noteq> []" "list_all isDigit ds" "double_integer (int (digits_value 10 ds))"
  shows "StringToNumber ds = Integer (int (digits_value 10 ds))"
    and "StringToNumber (43 # ds) = Integer (int (digits_value 10 ds))"
    and "StringToNumber (45 # ds) = Integer (- int (digits_value 10 ds))"
proof -
  have digits: "\<forall>c \<in> set ds. \<not> isWhiteSpace c \<and> c \<noteq> 43 \<and> c \<noteq> 45"
    using assms(2) isDigit_not_white_space by (auto simp: list_all_iff)
  have sign: "\<not> isWhiteSpace 43" "\<not> isWhiteSpace 45"
    by (simp_all add: isWhiteSpace_def)
  have trimmed: "trim ds = ds" "trim (43 # ds) = 43 # ds" "trim (45 # ds) = 45 # ds"
    using digits sign by (simp_all add: trim_no_white_space)
  have first: "take 1 ds \<noteq> [43]" "take 1 ds \<noteq> [45]"
    using assms(1) digits by (cases ds; simp)+
  have literal:
    "StrNumericLiteral ds = (False, Finite (digits_value 10 ds) 0)"
    "StrNumericLiteral (43 # ds) = (False, Finite (digits_value 10 ds) 0)"
    "StrNumericLiteral (45 # ds) = (True, Finite (digits_value 10 ds) 0)"
    using first
    by (simp_all add: StrNumericLiteral_def Let_def
          StrUnsignedDecimalLiteral_digits [OF assms(1,2)])
  have rounded:
    "integer_of_nearest_double (digits_value 10 ds) (Suc 0) = Some (digits_value 10 ds)"
    using integer_of_nearest_double_integer [OF assms(3)] by simp
  show "StringToNumber ds = Integer (int (digits_value 10 ds))"
    using assms(1) by (simp add: StringToNumber_def trimmed literal rounded)
  show "StringToNumber (43 # ds) = Integer (int (digits_value 10 ds))"
    by (simp add: StringToNumber_def trimmed literal rounded)
  show "StringToNumber (45 # ds) = Integer (- int (digits_value 10 ds))"
    by (simp add: StringToNumber_def trimmed literal rounded)
qed

lemma StringToNumber_SignedInteger:
  assumes "SignedInteger str = Some n" "double_integer n"
  shows "StringToNumber str = Integer n"
  using assms(1)
proof (cases rule: SignedInteger_cases)
  case (1 ds)
  with assms(2) StringToNumber_digits(1) [of ds] show ?thesis by simp
next
  case (2 ds)
  with assms(2) StringToNumber_digits(2) [of ds] show ?thesis by simp
next
  case (3 ds)
  with assms(2) StringToNumber_digits(3) [of ds] show ?thesis
    by (simp add: double_integer_minus)
qed

lemma StringToNumber_double_integer:
  assumes "StringToNumber str = Integer n"
  shows "double_integer n"
proof (cases "trim str = []")
  case True
  with assms have "n = 0" by (simp add: StringToNumber_def)
  then show ?thesis by (simp add: double_integer_def bit_length_zero)
next
  case False
  with assms obtain negative mantissa e v where
    v: "integer_of_nearest_double
          (if 0 \<le> e then mantissa * 10 ^ nat e else mantissa)
          (if 0 \<le> e then 1 else 10 ^ nat (- e)) = Some v"
    and n: "n = (if negative then - int v else int v)"
    by (auto simp: StringToNumber_def Let_def
          split: prod.splits numeric_literal.splits option.splits)
  have "double_integer (int v)"
    using v by (rule integer_of_nearest_double_holds) simp
  then show ?thesis
    by (simp add: n double_integer_minus)
qed

lemma SignedInteger_digits:
  assumes "ds \<noteq> []" "list_all isDigit ds"
  shows "SignedInteger ds = Some (int (digits_value 10 ds))"
    and "SignedInteger (45 # ds) = Some (- int (digits_value 10 ds))"
proof -
  have "take 1 ds \<noteq> [43]" "take 1 ds \<noteq> [45]"
    using assms isDigit_not_white_space by (cases ds; auto)+
  then show "SignedInteger ds = Some (int (digits_value 10 ds))"
    using assms by (simp add: SignedInteger_def Let_def)
  show "SignedInteger (45 # ds) = Some (- int (digits_value 10 ds))"
    using assms by (simp add: SignedInteger_def Let_def)
qed

lemma SignedInteger_ToString_decimal: "SignedInteger (ToString_decimal n) = Some n"
proof -
  have "digits_of m \<noteq> []" "list_all isDigit (digits_of m)" for m
    using digits_of_digits [of m] by (simp_all add: list_all_iff)
  then show ?thesis
    by (simp add: ToString_decimal_def SignedInteger_digits digits_value_digits_of)
qed

lemma StringToNumber_ToString_decimal:
  "double_integer n \<Longrightarrow> StringToNumber (ToString_decimal n) = Integer n"
  using SignedInteger_ToString_decimal by (rule StringToNumber_SignedInteger)

lemma representable_StringToNumber: "representable StringToNumber n \<longleftrightarrow> double_integer n"
  unfolding representable_def
  using StringToNumber_double_integer StringToNumber_ToString_decimal by blast

lemma host_numbers_StringToNumber: "host_numbers StringToNumber ToString_decimal"
proof -
  have "double_integer 1"
    using double_integer_small [of 1] by simp
  then show ?thesis
    unfolding host_numbers_def representable_StringToNumber
    using StringToNumber_ToString_decimal ToString_decimal_chars
    by (simp add: double_integer_minus)
qed

lemmas number_evaluation =
  StringToNumber_def StrNumericLiteral_def StrUnsignedDecimalLiteral_def
  NonDecimalIntegerLiteral_def ExponentPart_def SignedInteger_def digits_value_def
  digit_value_def integer_of_nearest_double_def round_half_even_def floor_log2_def
  bit_length.simps isDigit_def trim_def isWhiteSpace_def js_def Let_def

section \<open>The parser of one unit\<close>

lemma indexOf_CARET:
  "indexOf unitStr CARET =
     (if CARET \<in> set unitStr then Some (length (token_name unitStr)) else None)"
  by (simp add: indexOf_def token_name_def)

lemma take_token_name: "take (length (token_name unitStr)) unitStr = token_name unitStr"
  unfolding token_name_def by (rule takeWhile_eq_take [symmetric])

lemma token_name_no_caret: "CARET \<notin> set unitStr \<Longrightarrow> token_name unitStr = unitStr"
  by (auto simp: token_name_def takeWhile_eq_all_conv)

lemma resolve_name_cases:
  "(case resolve_name units name of
      None \<Rightarrow> Inl UnknownUnit
    | Some (pre, un) \<Rightarrow> Inr \<lparr> p_prefix = pre, p_unit = un, p_power = pw \<rparr>) =
   (if has_property units name then
      Inr \<lparr> p_prefix = None, p_unit = name, p_power = pw \<rparr>
    else if at_index name 0 = Some UNDERSCORE then
      Inr \<lparr> p_prefix = None, p_unit = name, p_power = pw \<rparr>
    else if has_property (map_of prefixes) (property_key (at_index name 0)) \<and>
            (case units (drop 1 name) of Some u \<Rightarrow> prefixable u | None \<Rightarrow> False)
      then Inr \<lparr> p_prefix = Some (property_key (at_index name 0)), p_unit = drop 1 name,
                  p_power = pw \<rparr>
    else if has_property (map_of prefixes) (take 2 name) \<and>
            (case units (drop 2 name) of Some u \<Rightarrow> binaryPrefixable u | None \<Rightarrow> False)
      then Inr \<lparr> p_prefix = Some (take 2 name), p_unit = drop 2 name, p_power = pw \<rparr>
    else Inl UnknownUnit)"
  by (simp add: resolve_name_def)

lemma parseSingleUnit_decomposed:
  "parseSingleUnit Number additionalUnits unitStr =
     (case token_power Number unitStr of
        NonInteger \<Rightarrow> Inl InvalidExponent
      | Integer pw \<Rightarrow>
          if pw = 0 then Inl InvalidExponent
          else (case resolve_name (all_units additionalUnits) (token_name unitStr) of
                  None \<Rightarrow> Inl UnknownUnit
                | Some (pre, un) \<Rightarrow> Inr \<lparr> p_prefix = pre, p_unit = un, p_power = pw \<rparr>))"
proof (cases "CARET \<in> set unitStr")
  case True
  then have "indexOf unitStr CARET = Some (length (token_name unitStr))"
    by (simp add: indexOf_CARET)
  moreover have "drop (length (token_name unitStr) + 1) unitStr = caret_suffix unitStr"
    by (simp add: caret_suffix_def token_name_def)
  moreover have "token_power Number unitStr = Number (caret_suffix unitStr)"
    using True by (simp add: token_power_def)
  ultimately show ?thesis
    unfolding resolve_name_cases parseSingleUnit_def Let_def
    by (simp only: option.case take_token_name)
next
  case False
  then have "indexOf unitStr CARET = None"
    by (simp add: indexOf_CARET)
  moreover have "token_power Number unitStr = Integer 1"
    using False by (simp add: token_power_def)
  moreover have "token_name unitStr = unitStr"
    using False by (rule token_name_no_caret)
  ultimately show ?thesis
    unfolding resolve_name_cases parseSingleUnit_def Let_def
    by (simp only: option.case)
qed

lemma prefixes_keys:
  "map_of prefixes k \<noteq> None \<Longrightarrow> 1 \<le> length k \<and> length k \<le> 2"
  by (auto simp: prefixes_def js_def split: if_splits)

lemma objectPrototypeKeys_length: "k \<in> set objectPrototypeKeys \<Longrightarrow> 7 \<le> length k"
  by (auto simp: objectPrototypeKeys_def js_def)

lemma has_property_prefixes:
  "has_property (map_of prefixes) k \<longleftrightarrow>
     map_of prefixes k \<noteq> None \<or> k \<in> set objectPrototypeKeys"
  by (simp add: has_property_def)

lemma has_property_prefixes_short:
  "length k \<le> 2 \<Longrightarrow> has_property (map_of prefixes) k \<longleftrightarrow> map_of prefixes k \<noteq> None"
  using objectPrototypeKeys_length [of k] by (auto simp: has_property_def)

lemma not_has_property_prefixes_undefined:
  "\<not> has_property (map_of prefixes) (js ''undefined'')"
  by (simp add: has_property_def js_def prefixes_def objectPrototypeKeys_def MICRO_SIGN_def)

lemma resolve_name_concat:
  assumes "resolve_name units name = Some (pre, un)"
  shows "(case pre of None \<Rightarrow> [] | Some p \<Rightarrow> p) @ un = name"
proof -
  have "property_key (at_index name 0) @ drop 1 name = name"
    if "has_property (map_of prefixes) (property_key (at_index name 0))"
  proof (cases name)
    case Nil
    with that not_has_property_prefixes_undefined show ?thesis
      by (simp add: at_index_def property_key_def)
  next
    case (Cons c cs)
    then show ?thesis by (simp add: at_index_def property_key_def)
  qed
  with assms show ?thesis
    by (auto simp: resolve_name_def split: if_splits)
qed

lemma nonzero_integer_iff: "nonzero_integer x \<longleftrightarrow> (\<exists>n. n \<noteq> 0 \<and> x = Integer n)"
  by (cases x) (auto simp: nonzero_integer_def)

lemma parseSingleUnit_exponent:
  "(parseSingleUnit Number additionalUnits unitStr = Inl InvalidExponent \<longleftrightarrow>
      CARET \<in> set unitStr \<and> \<not> nonzero_integer (Number (caret_suffix unitStr))) \<and>
   (parseSingleUnit Number additionalUnits unitStr = Inr u \<longrightarrow>
      p_power u \<noteq> 0 \<and>
      (if CARET \<in> set unitStr then Number (caret_suffix unitStr) = Integer (p_power u)
       else p_power u = 1))"
proof (cases "token_power Number unitStr")
  case NonInteger
  then show ?thesis
    by (auto simp: parseSingleUnit_decomposed token_power_def nonzero_integer_def
          split: if_splits)
next
  case (Integer pw)
  then show ?thesis
    by (auto simp: parseSingleUnit_decomposed token_power_def nonzero_integer_def
          split: if_splits option.splits)
qed

lemmas evaluation =
  parseSingleUnit_def parseUnits_def indexOf_def all_units_def builtInUnits_def
  has_property_def objectPrototypeKeys_def at_index_def property_key_def prefixes_def
  CARET_def SLASH_def UNDERSCORE_def DOT_OPERATOR_def MICRO_SIGN_def
  number_evaluation plain_def metric_def isUnitSeparatorStart_def split_UNIT_SEPARATOR.simps

text \<open>
  Claim C6, as the code has it. The exponent is what the host's \<open>Number\<close> makes of the text
  after the first caret. A token with a caret fails with InvalidExponent exactly when that
  number is not a nonzero integer, whatever the unit name is, and a token that parses has
  that number as its power; a token without a caret never fails so and has power 1. When
  the text is a signed integer literal, as the specification requires of an exponent, and
  a double holds its value, the token fails with InvalidExponent exactly when the value
  is 0, and a token that parses has the value as its power.
\<close>

theorem parseSingleUnit_InvalidExponent_iff:
  "(parseSingleUnit StringToNumber additionalUnits unitStr = Inl InvalidExponent \<longleftrightarrow>
      CARET \<in> set unitStr \<and> \<not> nonzero_integer (StringToNumber (caret_suffix unitStr))) \<and>
   (parseSingleUnit StringToNumber additionalUnits unitStr = Inr u \<longrightarrow>
      p_power u \<noteq> 0 \<and>
      (if CARET \<in> set unitStr
       then StringToNumber (caret_suffix unitStr) = Integer (p_power u)
       else p_power u = 1)) \<and>
   (CARET \<in> set unitStr \<and> SignedInteger (caret_suffix unitStr) = Some n \<and>
    double_integer n \<longrightarrow>
      (parseSingleUnit StringToNumber additionalUnits unitStr = Inl InvalidExponent \<longleftrightarrow>
         n = 0) \<and>
      (parseSingleUnit StringToNumber additionalUnits unitStr = Inr u \<longrightarrow> p_power u = n))"
proof (intro conjI impI)
  show "parseSingleUnit StringToNumber additionalUnits unitStr = Inl InvalidExponent \<longleftrightarrow>
      CARET \<in> set unitStr \<and> \<not> nonzero_integer (StringToNumber (caret_suffix unitStr))"
    using parseSingleUnit_exponent by blast
next
  assume "parseSingleUnit StringToNumber additionalUnits unitStr = Inr u"
  then show "p_power u \<noteq> 0"
    and "if CARET \<in> set unitStr
         then StringToNumber (caret_suffix unitStr) = Integer (p_power u)
         else p_power u = 1"
    using parseSingleUnit_exponent [of StringToNumber additionalUnits unitStr u] by simp_all
next
  assume literal: "CARET \<in> set unitStr \<and> SignedInteger (caret_suffix unitStr) = Some n \<and>
    double_integer n"
  then have number: "StringToNumber (caret_suffix unitStr) = Integer n"
    by (simp add: StringToNumber_SignedInteger)
  with literal
  show "parseSingleUnit StringToNumber additionalUnits unitStr = Inl InvalidExponent \<longleftrightarrow>
          n = 0"
    using parseSingleUnit_exponent [of StringToNumber additionalUnits unitStr u]
    by (simp add: nonzero_integer_def)
  assume "parseSingleUnit StringToNumber additionalUnits unitStr = Inr u"
  with literal number show "p_power u = n"
    using parseSingleUnit_exponent [of StringToNumber additionalUnits unitStr u] by simp
qed

theorem parseSingleUnit_InvalidExponent_iff_witness:
  "parseSingleUnit StringToNumber None (js ''m^0'') = Inl InvalidExponent \<and>
   parseSingleUnit StringToNumber None (js ''m^-0'') = Inl InvalidExponent \<and>
   parseSingleUnit StringToNumber None (js ''m^1.5'') = Inl InvalidExponent \<and>
   parseSingleUnit StringToNumber None (js ''m^'') = Inl InvalidExponent \<and>
   parseSingleUnit StringToNumber None (js ''m^two'') = Inl InvalidExponent \<and>
   parseSingleUnit StringToNumber None (js ''m^Infinity'') = Inl InvalidExponent \<and>
   parseSingleUnit StringToNumber None (js ''foo^0'') = Inl InvalidExponent \<and>
   parseSingleUnit StringToNumber None (js ''foo^2'') \<noteq> Inl InvalidExponent \<and>
   parseSingleUnit StringToNumber None (js ''m'') \<noteq> Inl InvalidExponent \<and>
   CARET \<in> set (js ''m^-2'') \<and> SignedInteger (caret_suffix (js ''m^-2'')) = Some (- 2) \<and>
   double_integer (- 2) \<and>
   parseSingleUnit StringToNumber None (js ''m^-2'') =
     Inr \<lparr> p_prefix = None, p_unit = js ''m'', p_power = - 2 \<rparr> \<and>
   parseSingleUnit StringToNumber None (js ''m^+3'') =
     Inr \<lparr> p_prefix = None, p_unit = js ''m'', p_power = 3 \<rparr> \<and>
   parseSingleUnit StringToNumber None (js ''km'') =
     Inr \<lparr> p_prefix = Some (js ''k''), p_unit = js ''m'', p_power = 1 \<rparr>"
proof -
  have parsed:
    "parseSingleUnit StringToNumber None (js ''km'') =
          Inr \<lparr> p_prefix = Some (js ''k''), p_unit = js ''m'', p_power = 1 \<rparr>"
    "parseSingleUnit StringToNumber None (js ''m^-2'') =
          Inr \<lparr> p_prefix = None, p_unit = js ''m'', p_power = - 2 \<rparr>"
    "parseSingleUnit StringToNumber None (js ''m^+3'') =
          Inr \<lparr> p_prefix = None, p_unit = js ''m'', p_power = 3 \<rparr>"
    by (simp_all add: evaluation)
  have literal:
    "CARET \<in> set (js ''m^-2'')" "SignedInteger (caret_suffix (js ''m^-2'')) = Some (- 2)"
    "double_integer (- 2)"
    by (simp_all add: caret_suffix_def js_def CARET_def SignedInteger_def isDigit_def
          digits_value_def digit_value_def double_integer_def bit_length.simps)
  have "parseSingleUnit StringToNumber None (js ''m^-2'') \<noteq> Inl InvalidExponent"
    "p_power \<lparr> p_prefix = None, p_unit = js ''m'', p_power = - 2 \<rparr> = - 2"
    using parseSingleUnit_InvalidExponent_iff [of None "js ''m^-2''"
        "\<lparr> p_prefix = None, p_unit = js ''m'', p_power = - 2 \<rparr>" "- 2"] literal parsed(2)
    by simp_all
  moreover have
    "parseSingleUnit StringToNumber None (js ''m^0'') = Inl InvalidExponent"
    "parseSingleUnit StringToNumber None (js ''m^-0'') = Inl InvalidExponent"
    "parseSingleUnit StringToNumber None (js ''m^1.5'') = Inl InvalidExponent"
    "parseSingleUnit StringToNumber None (js ''m^'') = Inl InvalidExponent"
    "parseSingleUnit StringToNumber None (js ''m^two'') = Inl InvalidExponent"
    "parseSingleUnit StringToNumber None (js ''m^Infinity'') = Inl InvalidExponent"
    "parseSingleUnit StringToNumber None (js ''foo^0'') = Inl InvalidExponent"
    "parseSingleUnit StringToNumber None (js ''foo^2'') \<noteq> Inl InvalidExponent"
    "parseSingleUnit StringToNumber None (js ''m'') \<noteq> Inl InvalidExponent"
    by (simp_all add: parseSingleUnit_InvalidExponent_iff nonzero_integer_def caret_suffix_def
          number_evaluation CARET_def)
  ultimately show ?thesis
    using parsed literal by (simp only: simp_thms)
qed

text \<open>
  Counterexample to claim C6 as stated: the text after the caret need not be a nonzero
  integer. None of \<open>2.0\<close>, \<open>1e2\<close>, \<open>0x10\<close> and \<open>1.0000000000000000001\<close> is a signed integer
  literal, and the last does not even denote an integer, yet the tokens parse, with the
  powers 2, 100, 16 and 1 that the host's \<open>Number\<close> reads.
\<close>

theorem parseSingleUnit_accepts_other_numbers:
  "SignedInteger (js ''2.0'') = None \<and>
   parseSingleUnit StringToNumber None (js ''m^2.0'') =
     Inr \<lparr> p_prefix = None, p_unit = js ''m'', p_power = 2 \<rparr> \<and>
   SignedInteger (js ''1e2'') = None \<and>
   parseSingleUnit StringToNumber None (js ''m^1e2'') =
     Inr \<lparr> p_prefix = None, p_unit = js ''m'', p_power = 100 \<rparr> \<and>
   SignedInteger (js ''0x10'') = None \<and>
   parseSingleUnit StringToNumber None (js ''m^0x10'') =
     Inr \<lparr> p_prefix = None, p_unit = js ''m'', p_power = 16 \<rparr> \<and>
   SignedInteger (js ''1.0000000000000000001'') = None \<and>
   parseSingleUnit StringToNumber None (js ''m^1.0000000000000000001'') =
     Inr \<lparr> p_prefix = None, p_unit = js ''m'', p_power = 1 \<rparr>"
proof -
  have "SignedInteger (js ''2.0'') = None" "SignedInteger (js ''1e2'') = None"
    "SignedInteger (js ''0x10'') = None" "SignedInteger (js ''1.0000000000000000001'') = None"
    by (simp_all add: SignedInteger_def js_def isDigit_def)
  moreover have
    "parseSingleUnit StringToNumber None (js ''m^2.0'') =
       Inr \<lparr> p_prefix = None, p_unit = js ''m'', p_power = 2 \<rparr>"
    "parseSingleUnit StringToNumber None (js ''m^1e2'') =
       Inr \<lparr> p_prefix = None, p_unit = js ''m'', p_power = 100 \<rparr>"
    "parseSingleUnit StringToNumber None (js ''m^0x10'') =
       Inr \<lparr> p_prefix = None, p_unit = js ''m'', p_power = 16 \<rparr>"
    "parseSingleUnit StringToNumber None (js ''m^1.0000000000000000001'') =
       Inr \<lparr> p_prefix = None, p_unit = js ''m'', p_power = 1 \<rparr>"
    by (simp_all add: evaluation)
  ultimately show ?thesis by (simp only: simp_thms)
qed

text \<open>
  Claim C2 fails on the code for the names of the members of \<open>Object.prototype\<close>: the
  token \<open>toString\<close> is no entry of the unit table, does not start with an underscore and
  has no prefix decomposition, so the tokenization of the specification fails with
  UnknownUnit; the code tests \<open>prefixedUnit in units\<close>, which is true of inherited
  properties, and returns the token as a unit.
\<close>

theorem parseSingleUnit_toString:
  "parseSingleUnit Number None (js ''toString'') =
     Inr \<lparr> p_prefix = None, p_unit = js ''toString'', p_power = 1 \<rparr> \<and>
   spec_tokenize (all_units None) (js ''toString'') = None"
  by (simp add: evaluation spec_tokenize_def is_metric_prefix_def is_binary_prefix_def)

lemma resolve_name_spec_tokenize:
  assumes "name \<notin> set objectPrototypeKeys" and "units [] = None"
  shows "resolve_name units name = spec_tokenize units name"
proof (cases name)
  case Nil
  with assms not_has_property_prefixes_undefined show ?thesis
    by (simp add: resolve_name_def spec_tokenize_def has_property_def at_index_def
          property_key_def is_metric_prefix_def is_binary_prefix_def)
next
  case (Cons c cs)
  have one: "has_property (map_of prefixes) [c] \<longleftrightarrow> is_metric_prefix [c]"
    by (simp add: has_property_prefixes_short is_metric_prefix_def)
  have two: "has_property (map_of prefixes) (take 2 name) \<and>
               (case units (drop 2 name) of Some u \<Rightarrow> binaryPrefixable u | None \<Rightarrow> False) \<longleftrightarrow>
             is_binary_prefix (take 2 name) \<and>
               (case units (drop 2 name) of Some u \<Rightarrow> binaryPrefixable u | None \<Rightarrow> False)"
  proof (cases cs)
    case Nil
    with Cons assms(2) show ?thesis by simp
  next
    case (Cons d ds)
    with \<open>name = c # cs\<close> show ?thesis
      by (simp add: has_property_prefixes_short is_binary_prefix_def)
  qed
  have "resolve_name units name =
          (if has_property units name then Some (None, name)
           else if c = UNDERSCORE then Some (None, name)
           else if has_property (map_of prefixes) [c] \<and>
                   (case units cs of Some u \<Rightarrow> prefixable u | None \<Rightarrow> False)
             then Some (Some [c], cs)
           else if has_property (map_of prefixes) (take 2 name) \<and>
                   (case units (drop 2 name) of Some u \<Rightarrow> binaryPrefixable u | None \<Rightarrow> False)
             then Some (Some (take 2 name), drop 2 name)
           else None)"
    using Cons by (simp add: resolve_name_def at_index_def property_key_def)
  also have "\<dots> = spec_tokenize units name"
    unfolding one two using Cons assms(1)
    by (simp add: spec_tokenize_def has_property_def)
  finally show ?thesis .
qed

text \<open>
  Outside the names of the members of \<open>Object.prototype\<close>, and when no unit is named by
  the empty string, a token with a valid exponent is tokenized as the specification
  says: exact match, then custom unit, then metric prefix, then binary prefix, else
  UnknownUnit.
\<close>

theorem parseSingleUnit_follows_specification:
  assumes "token_name unitStr \<notin> set objectPrototypeKeys"
    and "all_units additionalUnits [] = None"
    and "token_power Number unitStr = Integer pw" and "pw \<noteq> 0"
  shows "parseSingleUnit Number additionalUnits unitStr =
           (case spec_tokenize (all_units additionalUnits) (token_name unitStr) of
              None \<Rightarrow> Inl UnknownUnit
            | Some (pre, un) \<Rightarrow> Inr \<lparr> p_prefix = pre, p_unit = un, p_power = pw \<rparr>)"
  using assms by (simp add: parseSingleUnit_decomposed resolve_name_spec_tokenize)

lemma all_units_None_empty: "all_units None [] = None"
  by (simp add: all_units_def builtInUnits_def js_def)

theorem parseSingleUnit_follows_specification_witness:
  "parseSingleUnit StringToNumber None (js ''Ma'') =
     Inr \<lparr> p_prefix = None, p_unit = js ''Ma'', p_power = 1 \<rparr> \<and>
   parseSingleUnit StringToNumber None (js ''_pax^2'') =
     Inr \<lparr> p_prefix = None, p_unit = js ''_pax'', p_power = 2 \<rparr> \<and>
   parseSingleUnit StringToNumber None (js ''MA'') =
     Inr \<lparr> p_prefix = Some (js ''M''), p_unit = js ''A'', p_power = 1 \<rparr> \<and>
   parseSingleUnit StringToNumber None (js ''Mib'') =
     Inr \<lparr> p_prefix = Some (js ''Mi''), p_unit = js ''b'', p_power = 1 \<rparr> \<and>
   parseSingleUnit StringToNumber None (js ''Mimol'') = Inl UnknownUnit"
proof -
  have names:
    "token_name (js ''Ma'') \<notin> set objectPrototypeKeys"
    "token_name (js ''_pax^2'') \<notin> set objectPrototypeKeys"
    "token_name (js ''MA'') \<notin> set objectPrototypeKeys"
    "token_name (js ''Mib'') \<notin> set objectPrototypeKeys"
    "token_name (js ''Mimol'') \<notin> set objectPrototypeKeys"
    by (simp_all add: token_name_def js_def CARET_def objectPrototypeKeys_def)
  have powers:
    "token_power StringToNumber (js ''Ma'') = Integer 1"
    "token_power StringToNumber (js ''_pax^2'') = Integer 2"
    "token_power StringToNumber (js ''MA'') = Integer 1"
    "token_power StringToNumber (js ''Mib'') = Integer 1"
    "token_power StringToNumber (js ''Mimol'') = Integer 1"
    by (simp_all add: token_power_def caret_suffix_def CARET_def number_evaluation)
  have tokens:
    "spec_tokenize (all_units None) (token_name (js ''Ma'')) = Some (None, js ''Ma'')"
    "spec_tokenize (all_units None) (token_name (js ''_pax^2'')) = Some (None, js ''_pax'')"
    "spec_tokenize (all_units None) (token_name (js ''MA'')) = Some (Some (js ''M''), js ''A'')"
    "spec_tokenize (all_units None) (token_name (js ''Mib'')) = Some (Some (js ''Mi''), js ''b'')"
    "spec_tokenize (all_units None) (token_name (js ''Mimol'')) = None"
    by (simp_all add: spec_tokenize_def is_metric_prefix_def is_binary_prefix_def
          token_name_def all_units_def builtInUnits_def prefixes_def js_def CARET_def
          UNDERSCORE_def MICRO_SIGN_def plain_def metric_def)
  show ?thesis
    using parseSingleUnit_follows_specification [OF names(1) all_units_None_empty powers(1)]
      parseSingleUnit_follows_specification [OF names(2) all_units_None_empty powers(2)]
      parseSingleUnit_follows_specification [OF names(3) all_units_None_empty powers(3)]
      parseSingleUnit_follows_specification [OF names(4) all_units_None_empty powers(4)]
      parseSingleUnit_follows_specification [OF names(5) all_units_None_empty powers(5)]
    by (simp add: tokens)
qed

section \<open>The parser of a unit string\<close>

lemma parseSingleUnit_empty_token:
  assumes "all_units additionalUnits [] = None"
  shows "parseSingleUnit Number additionalUnits [] = Inl UnknownUnit"
proof -
  have "resolve_name (all_units additionalUnits) [] = None"
    using assms not_has_property_prefixes_undefined
    by (simp add: resolve_name_def has_property_def at_index_def property_key_def
          objectPrototypeKeys_def js_def prefixes_def MICRO_SIGN_def)
  then show ?thesis
    by (simp add: parseSingleUnit_decomposed token_power_def token_name_def)
qed

lemma map_throwing_not_Nil: "xs \<noteq> [] \<Longrightarrow> map_throwing f xs \<noteq> Inr []"
  by (cases xs) (auto split: sum.splits)

lemma map_throwing_first_fails: "f x = Inl e \<Longrightarrow> map_throwing f (x # xs) = Inl e"
  by simp

lemma parseUnits_not_empty_list: "parseUnits Number additionalUnits unitStr \<noteq> Inr []"
proof -
  let ?sections = "split_slash unitStr"
  have "map_throwing (parseSingleUnit Number additionalUnits)
          (split_UNIT_SEPARATOR (trim (?sections ! 0))) \<noteq> Inr []"
    by (rule map_throwing_not_Nil) (rule split_UNIT_SEPARATOR_not_Nil)
  then show ?thesis
    by (auto simp: parseUnits_def Let_def split: sum.splits option.splits)
qed

lemma split_UNIT_SEPARATOR_Nil: "split_UNIT_SEPARATOR [] = [[]]"
  by (simp add: split_UNIT_SEPARATOR_no_separator)

text \<open>
  Claim C4, as the code has it. The parser does not accept the empty unit string: it
  splits it into one empty token, which names no unit, and fails with UnknownUnit (when
  no additional unit is named by the empty string). No unit string at all parses to the
  empty list, so the dimensionless unit is not a result of \<open>parseUnits\<close>.
\<close>

theorem parseUnits_empty_string:
  "(all_units additionalUnits [] = None \<longrightarrow>
      parseUnits Number additionalUnits [] = Inl UnknownUnit) \<and>
   parseUnits Number additionalUnits unitStr \<noteq> Inr []"
proof (intro conjI impI)
  assume "all_units additionalUnits [] = None"
  then show "parseUnits Number additionalUnits [] = Inl UnknownUnit"
    by (simp add: parseUnits_def trim_def split_UNIT_SEPARATOR_Nil parseSingleUnit_empty_token)
next
  show "parseUnits Number additionalUnits unitStr \<noteq> Inr []"
    by (rule parseUnits_not_empty_list)
qed

theorem parseUnits_empty_string_witness:
  "all_units None [] = None \<and>
   parseUnits StringToNumber None [] = Inl UnknownUnit \<and>
   parseUnits StringToNumber None (js ''%'') \<noteq> Inr []"
  using parseUnits_empty_string [of None StringToNumber "js ''%''"]
  by (simp add: all_units_None_empty)

text \<open>
  Counterexample to claim C4 as stated: on the empty string the parser throws; it does
  not return the empty list.
\<close>

theorem parseUnits_empty_string_fails:
  "parseUnits StringToNumber None (js '''') = Inl UnknownUnit \<and>
   parseUnits StringToNumber None (js '''') \<noteq> Inr []"
  by (simp add: evaluation)

lemma parseUnits_quotient:
  assumes "SLASH \<notin> set num" and "SLASH \<notin> set den"
  shows "parseUnits Number additionalUnits (num @ SLASH # den) =
           (case map_throwing (parseSingleUnit Number additionalUnits)
                   (split_UNIT_SEPARATOR (trim num)) of
              Inl e \<Rightarrow> Inl e
            | Inr ns \<Rightarrow>
                (case map_throwing (parseSingleUnit Number additionalUnits)
                        (split_UNIT_SEPARATOR (trim den)) of
                   Inl e \<Rightarrow> Inl e
                 | Inr ds \<Rightarrow> Inr (ns @ map negated ds)))"
proof -
  have "split_slash (num @ SLASH # den) = [num, den]"
    using assms by (simp add: split_slash_at_first split_slash_no_slash)
  moreover have "(\<lambda>x. x \<lparr> p_power := p_power x * - 1 \<rparr>) = negated"
    by (simp add: negated_def fun_eq_iff)
  ultimately show ?thesis
    by (simp add: parseUnits_def at_index_def split: sum.splits)
qed

lemma parseUnits_no_slash:
  assumes "SLASH \<notin> set unitStr"
  shows "parseUnits Number additionalUnits unitStr =
           map_throwing (parseSingleUnit Number additionalUnits)
             (split_UNIT_SEPARATOR (trim unitStr))"
  using assms by (simp add: parseUnits_def split_slash_no_slash at_index_def split: sum.splits)

lemma parseUnits_many_slashes:
  assumes "SLASH \<in> set den"
  shows "parseUnits Number additionalUnits (num @ SLASH # den) = Inl InvalidUnitString"
proof -
  have "length (split_slash unitStr) > 1" if "SLASH \<in> set unitStr" for unitStr
    using that split_slash_length_one [of unitStr] split_slash_not_Nil [of unitStr]
    by (cases "split_slash unitStr") auto
  then have "length (split_slash den) > 1" using assms by simp
  moreover have "length (split_slash (num @ SLASH # den)) > length (split_slash den)"
  proof (induction num)
    case Nil
    then show ?case by simp
  next
    case (Cons c cs)
    then show ?case
      using split_slash_not_Nil [of "cs @ SLASH # den"]
      by (cases "split_slash (cs @ SLASH # den)") auto
  qed
  ultimately show ?thesis by (simp add: parseUnits_def)
qed

lemma parseSingleUnit_empty_name:
  assumes "all_units additionalUnits [] \<noteq> None"
  shows "parseSingleUnit Number additionalUnits [] =
           Inr \<lparr> p_prefix = None, p_unit = [], p_power = 1 \<rparr>"
proof -
  have "resolve_name (all_units additionalUnits) [] = Some (None, [])"
    using assms by (simp add: resolve_name_def has_property_def)
  then show ?thesis
    by (simp add: parseSingleUnit_decomposed token_power_def token_name_def)
qed

text \<open>
  Claim C5, as the code has it. A unit string whose numerator is empty (nothing, or only
  white space, before the slash), such as \<open>/s\<close>, does not parse unless a unit is named by
  the empty string: the empty numerator is split into one empty token, and the parser
  fails with UnknownUnit (with InvalidUnitString when there is a second slash, whatever
  the units are). Only when an additional unit is named by the empty string does the empty
  token parse, as that unit with power 1, followed by the units of the denominator with
  their exponents negated. After a numerator that parses, the units of the denominator
  follow those of the numerator with their exponents negated.
\<close>

theorem parseUnits_denominator:
  "((\<forall>c \<in> set ws. isWhiteSpace c) \<longrightarrow>
      parseUnits Number additionalUnits (ws @ SLASH # den) =
        (if SLASH \<in> set den then Inl InvalidUnitString
         else if all_units additionalUnits [] = None then Inl UnknownUnit
         else
           (case map_throwing (parseSingleUnit Number additionalUnits)
                   (split_UNIT_SEPARATOR (trim den)) of
              Inl e \<Rightarrow> Inl e
            | Inr ds \<Rightarrow>
                Inr (\<lparr> p_prefix = None, p_unit = [], p_power = 1 \<rparr> # map negated ds)))) \<and>
   (SLASH \<notin> set num \<and> SLASH \<notin> set den \<and>
    map_throwing (parseSingleUnit Number additionalUnits)
      (split_UNIT_SEPARATOR (trim num)) = Inr ns \<and>
    map_throwing (parseSingleUnit Number additionalUnits)
      (split_UNIT_SEPARATOR (trim den)) = Inr ds \<longrightarrow>
      parseUnits Number additionalUnits (num @ SLASH # den) = Inr (ns @ map negated ds))"
proof (intro conjI impI)
  assume ws: "\<forall>c \<in> set ws. isWhiteSpace c"
  show "parseUnits Number additionalUnits (ws @ SLASH # den) =
        (if SLASH \<in> set den then Inl InvalidUnitString
         else if all_units additionalUnits [] = None then Inl UnknownUnit
         else
           (case map_throwing (parseSingleUnit Number additionalUnits)
                   (split_UNIT_SEPARATOR (trim den)) of
              Inl e \<Rightarrow> Inl e
            | Inr ds \<Rightarrow>
                Inr (\<lparr> p_prefix = None, p_unit = [], p_power = 1 \<rparr> # map negated ds)))"
  proof (cases "SLASH \<in> set den")
    case True
    then show ?thesis by (simp add: parseUnits_many_slashes)
  next
    case False
    have no_slash: "SLASH \<notin> set ws"
      using ws by (auto simp: isWhiteSpace_def SLASH_def)
    have empty: "trim ws = []"
      using ws by (rule trim_white_space)
    show ?thesis
    proof (cases "all_units additionalUnits [] = None")
      case True
      then show ?thesis
        using False no_slash
        by (simp add: parseUnits_quotient empty split_UNIT_SEPARATOR_Nil
              parseSingleUnit_empty_token)
    next
      case named: False
      then obtain unit where "all_units additionalUnits [] = Some unit"
        by auto
      then show ?thesis
        using False no_slash
        by (simp add: parseUnits_quotient empty split_UNIT_SEPARATOR_Nil
              parseSingleUnit_empty_name [OF named] split: sum.splits)
    qed
  qed
next
  assume "SLASH \<notin> set num \<and> SLASH \<notin> set den \<and>
      map_throwing (parseSingleUnit Number additionalUnits)
        (split_UNIT_SEPARATOR (trim num)) = Inr ns \<and>
      map_throwing (parseSingleUnit Number additionalUnits)
        (split_UNIT_SEPARATOR (trim den)) = Inr ds"
  then show "parseUnits Number additionalUnits (num @ SLASH # den) = Inr (ns @ map negated ds)"
    by (simp add: parseUnits_quotient)
qed

theorem parseUnits_denominator_witness:
  "parseUnits StringToNumber None (js ''/s'') = Inl UnknownUnit \<and>
   parseUnits StringToNumber None (js '' /m/s'') = Inl InvalidUnitString \<and>
   parseUnits StringToNumber (Some [[] \<mapsto> plain 1 Dimensionless]) (js ''/s'') =
     Inr [\<lparr> p_prefix = None, p_unit = [], p_power = 1 \<rparr>,
          \<lparr> p_prefix = None, p_unit = js ''s'', p_power = - 1 \<rparr>] \<and>
   parseUnits StringToNumber None (js ''kg m / s^2'') =
     Inr [\<lparr> p_prefix = Some (js ''k''), p_unit = js ''g'', p_power = 1 \<rparr>,
          \<lparr> p_prefix = None, p_unit = js ''m'', p_power = 1 \<rparr>,
          \<lparr> p_prefix = None, p_unit = js ''s'', p_power = - 2 \<rparr>]"
proof -
  have num: "map_throwing (parseSingleUnit StringToNumber None)
               (split_UNIT_SEPARATOR (trim (js ''kg m ''))) =
             Inr [\<lparr> p_prefix = Some (js ''k''), p_unit = js ''g'', p_power = 1 \<rparr>,
                  \<lparr> p_prefix = None, p_unit = js ''m'', p_power = 1 \<rparr>]"
    by (simp add: evaluation)
  have den: "map_throwing (parseSingleUnit StringToNumber None)
               (split_UNIT_SEPARATOR (trim (js '' s^2''))) =
             Inr [\<lparr> p_prefix = None, p_unit = js ''s'', p_power = 2 \<rparr>]"
    by (simp add: evaluation)
  have "parseUnits StringToNumber None (js ''kg m '' @ SLASH # js '' s^2'') =
          Inr ([\<lparr> p_prefix = Some (js ''k''), p_unit = js ''g'', p_power = 1 \<rparr>,
                \<lparr> p_prefix = None, p_unit = js ''m'', p_power = 1 \<rparr>] @
               map negated [\<lparr> p_prefix = None, p_unit = js ''s'', p_power = 2 \<rparr>])"
    using parseUnits_denominator [of "[]" StringToNumber None "js '' s^2''"
        "js ''kg m ''" "[\<lparr> p_prefix = Some (js ''k''), p_unit = js ''g'', p_power = 1 \<rparr>,
                  \<lparr> p_prefix = None, p_unit = js ''m'', p_power = 1 \<rparr>]"
        "[\<lparr> p_prefix = None, p_unit = js ''s'', p_power = 2 \<rparr>]"] num den
    by (simp add: js_def SLASH_def)
  moreover have "parseUnits StringToNumber None ([] @ SLASH # js ''s'') = Inl UnknownUnit"
    using parseUnits_denominator [of "[]" StringToNumber None "js ''s''"]
    by (simp add: js_def SLASH_def all_units_None_empty)
  moreover have
    "parseUnits StringToNumber None (js '' '' @ SLASH # js ''m/s'') = Inl InvalidUnitString"
    using parseUnits_denominator [of "js '' ''" StringToNumber None "js ''m/s''"]
    by (simp add: js_def SLASH_def isWhiteSpace_def)
  moreover have
    "map_throwing (parseSingleUnit StringToNumber (Some [[] \<mapsto> plain 1 Dimensionless]))
       (split_UNIT_SEPARATOR (trim (js ''s''))) =
     Inr [\<lparr> p_prefix = None, p_unit = js ''s'', p_power = 1 \<rparr>]"
    by (simp add: evaluation)
  then have
    "parseUnits StringToNumber (Some [[] \<mapsto> plain 1 Dimensionless]) ([] @ SLASH # js ''s'') =
       Inr [\<lparr> p_prefix = None, p_unit = [], p_power = 1 \<rparr>,
            \<lparr> p_prefix = None, p_unit = js ''s'', p_power = - 1 \<rparr>]"
    using parseUnits_denominator [of "[]" StringToNumber
        "Some [[] \<mapsto> plain 1 Dimensionless]" "js ''s''"]
    by (simp add: js_def SLASH_def all_units_def negated_def)
  ultimately show ?thesis
    by (simp add: js_def SLASH_def negated_def)
qed

text \<open>
  Counterexample to claim C5 as stated: \<open>/s\<close> does not parse to the unit \<open>s\<close> with
  power -1; the parser throws.
\<close>

theorem parseUnits_slash_s_fails:
  "parseUnits StringToNumber None (js ''/s'') = Inl UnknownUnit \<and>
   parseUnits StringToNumber None (js ''/s'') \<noteq>
     Inr [\<lparr> p_prefix = None, p_unit = js ''s'', p_power = - 1 \<rparr>]"
  by (simp add: evaluation)

section \<open>The formatter\<close>

lemma foldl_sort_out:
  "foldl (sort_out ToString) (numerator, denominator) units =
     (numerator @
        map (\<lambda>u. prefix_or_empty u @ p_unit u @
                    (if p_power u \<noteq> 1 then CARET # ToString (p_power u) else []))
          (filter (\<lambda>u. p_power u > 0) units),
      denominator @
        map (\<lambda>u. prefix_or_empty u @ p_unit u @
                    (if p_power u \<noteq> - 1 then CARET # ToString (p_power u * - 1) else []))
          (filter (\<lambda>u. \<not> p_power u > 0) units))"
  by (induction units arbitrary: numerator denominator) (simp_all add: sort_out_def)

lemma numerator_entries:
  "map (\<lambda>u. prefix_or_empty u @ p_unit u @
               (if p_power u \<noteq> 1 then CARET # ToString (p_power u) else []))
     (filter (\<lambda>u. p_power u > 0) units) =
   map (spec_entry ToString) (filter (\<lambda>u. p_power u > 0) units)"
  by (rule map_cong) (auto simp: spec_entry_def)

lemma denominator_entries:
  assumes "\<forall>u \<in> set units. p_power u \<noteq> 0"
  shows "map (\<lambda>u. prefix_or_empty u @ p_unit u @
               (if p_power u \<noteq> - 1 then CARET # ToString (p_power u * - 1) else []))
     (filter (\<lambda>u. \<not> p_power u > 0) units) =
   map (spec_entry ToString) (filter (\<lambda>u. p_power u < 0) units)"
proof -
  have "filter (\<lambda>u. \<not> p_power u > 0) units = filter (\<lambda>u. p_power u < 0) units"
    using assms by (intro filter_cong) auto
  moreover have
    "map (\<lambda>u. prefix_or_empty u @ p_unit u @
               (if p_power u \<noteq> - 1 then CARET # ToString (p_power u * - 1) else []))
       (filter (\<lambda>u. p_power u < 0) units) =
     map (spec_entry ToString) (filter (\<lambda>u. p_power u < 0) units)"
    by (rule map_cong) (auto simp: spec_entry_def abs_if)
  ultimately show ?thesis by simp
qed

lemma toUnitString_cases:
  assumes "\<forall>u \<in> set units. p_power u \<noteq> 0"
  shows "toUnitString ToString units =
           (if \<exists>u \<in> set units. p_power u > 0 then spec_toUnitString ToString units
            else join [DOT_OPERATOR] (map (signed_entry ToString) units))"
proof -
  let ?num = "map (spec_entry ToString) (filter (\<lambda>u. p_power u > 0) units)"
  let ?den = "map (spec_entry ToString) (filter (\<lambda>u. p_power u < 0) units)"
  have fold: "foldl (sort_out ToString) ([], []) units = (?num, ?den)"
    by (simp add: foldl_sort_out numerator_entries denominator_entries [OF assms])
  have num: "?num \<noteq> [] \<longleftrightarrow> (\<exists>u \<in> set units. p_power u > 0)"
    by (simp add: filter_empty_conv)
  have signed: "(\<lambda>u. prefix_or_empty u @ p_unit u @ CARET # ToString (p_power u)) =
                signed_entry ToString"
    by (simp add: signed_entry_def fun_eq_iff)
  show ?thesis
  proof (cases "\<exists>u \<in> set units. p_power u > 0")
    case True
    with num have "?num \<noteq> []" by simp
    with True show ?thesis
      by (simp add: toUnitString_def fold spec_toUnitString_def Let_def del: map_is_Nil_conv)
  next
    case False
    with num have empty: "?num = []" by simp
    show ?thesis
    proof (cases "?den = []")
      case True
      then have "\<forall>u \<in> set units. \<not> p_power u < 0"
        by (simp add: filter_empty_conv)
      with False assms have "units = []"
        by (cases units) (auto simp: not_less)
      then show ?thesis by (simp add: toUnitString_def)
    next
      case nonempty: False
      with False empty show ?thesis
        by (simp add: toUnitString_def fold signed del: map_is_Nil_conv)
    qed
  qed
qed

lemma set_join_subset:
  assumes "\<forall>t \<in> set toks. set t \<subseteq> A" and "set sep \<subseteq> A"
  shows "set (join sep toks) \<subseteq> A"
  using set_join [of sep toks] assms by blast

lemma toUnitString_no_space:
  assumes "\<forall>u \<in> set units.
             SPACE \<notin> set (prefix_or_empty u) \<and> SPACE \<notin> set (p_unit u) \<and>
             SPACE \<notin> set (ToString (p_power u)) \<and> SPACE \<notin> set (ToString (- p_power u))"
  shows "SPACE \<notin> set (toUnitString ToString units)"
proof -
  let ?A = "- {SPACE}"
  let ?num = "map (\<lambda>u. prefix_or_empty u @ p_unit u @
                    (if p_power u \<noteq> 1 then CARET # ToString (p_power u) else []))
               (filter (\<lambda>u. p_power u > 0) units)"
  let ?den = "map (\<lambda>u. prefix_or_empty u @ p_unit u @
                    (if p_power u \<noteq> - 1 then CARET # ToString (p_power u * - 1) else []))
               (filter (\<lambda>u. \<not> p_power u > 0) units)"
  let ?all = "map (\<lambda>u. prefix_or_empty u @ p_unit u @ CARET # ToString (p_power u)) units"
  have marks: "CARET \<in> ?A" "set [DOT_OPERATOR] \<subseteq> ?A" "SLASH \<in> ?A"
    by (simp_all add: SPACE_def CARET_def DOT_OPERATOR_def SLASH_def)
  have "\<forall>t \<in> set ?num. set t \<subseteq> ?A"
    using assms marks(1) by auto
  then have num: "set (join [DOT_OPERATOR] ?num) \<subseteq> ?A"
    using marks(2) by (rule set_join_subset)
  have "\<forall>t \<in> set ?den. set t \<subseteq> ?A"
    using assms marks(1) by auto
  then have den: "set (join [DOT_OPERATOR] ?den) \<subseteq> ?A"
    using marks(2) by (rule set_join_subset)
  have "\<forall>t \<in> set ?all. set t \<subseteq> ?A"
    using assms marks(1) by auto
  then have all: "set (join [DOT_OPERATOR] ?all) \<subseteq> ?A"
    using marks(2) by (rule set_join_subset)
  have "set (toUnitString ToString units) \<subseteq> ?A"
    unfolding toUnitString_def foldl_sort_out
    using num den all marks(3) by (simp del: map_is_Nil_conv)
  then show ?thesis by auto
qed

text \<open>
  Claim C9, as the code has it. For a list of units with nonzero powers: when some power
  is positive, the output is the rendering of the specification (entries of positive and
  of negative power, each written as prefix, unit and a caret with the absolute power
  only when that is not 1, each side joined by the dot operator, one slash between two
  non-empty sides). When no power is positive, every entry is written as prefix, unit,
  caret and its signed power, also when the power is -1, joined by the dot operator. The
  formatter adds no space: the output has one only if a prefix, a unit name or the
  host's rendering of a power has one.
\<close>

theorem toUnitString_rendering:
  assumes "\<forall>u \<in> set units. p_power u \<noteq> 0"
  shows
    "toUnitString ToString units =
       (if \<exists>u \<in> set units. p_power u > 0 then spec_toUnitString ToString units
        else join [DOT_OPERATOR] (map (signed_entry ToString) units)) \<and>
     ((\<forall>u \<in> set units.
         SPACE \<notin> set (prefix_or_empty u) \<and> SPACE \<notin> set (p_unit u) \<and>
         SPACE \<notin> set (ToString (p_power u)) \<and> SPACE \<notin> set (ToString (- p_power u))) \<longrightarrow>
      SPACE \<notin> set (toUnitString ToString units))"
  using toUnitString_cases [OF assms] toUnitString_no_space by blast

lemmas formatting =
  spec_toUnitString_def spec_entry_def signed_entry_def prefix_or_empty_def Let_def
  ToString_decimal_def digits_of.simps js_def CARET_def SLASH_def DOT_OPERATOR_def SPACE_def

theorem toUnitString_rendering_witness:
  "toUnitString ToString_decimal
     [\<lparr> p_prefix = None, p_unit = js ''s'', p_power = 4 \<rparr>,
      \<lparr> p_prefix = None, p_unit = js ''A'', p_power = 2 \<rparr>,
      \<lparr> p_prefix = Some (js ''k''), p_unit = js ''g'', p_power = - 1 \<rparr>,
      \<lparr> p_prefix = None, p_unit = js ''m'', p_power = - 2 \<rparr>] =
     js ''s^4'' @ DOT_OPERATOR # js ''A^2/kg'' @ DOT_OPERATOR # js ''m^2'' \<and>
   SPACE \<notin> set (toUnitString ToString_decimal
     [\<lparr> p_prefix = None, p_unit = js ''s'', p_power = 4 \<rparr>,
      \<lparr> p_prefix = None, p_unit = js ''A'', p_power = 2 \<rparr>,
      \<lparr> p_prefix = Some (js ''k''), p_unit = js ''g'', p_power = - 1 \<rparr>,
      \<lparr> p_prefix = None, p_unit = js ''m'', p_power = - 2 \<rparr>]) \<and>
   toUnitString ToString_decimal
     [\<lparr> p_prefix = None, p_unit = js ''N'', p_power = - 1 \<rparr>,
      \<lparr> p_prefix = None, p_unit = js ''m'', p_power = - 2 \<rparr>] =
     js ''N^-1'' @ DOT_OPERATOR # js ''m^-2''"
proof -
  let ?us = "[\<lparr> p_prefix = None, p_unit = js ''s'', p_power = 4 \<rparr>,
      \<lparr> p_prefix = None, p_unit = js ''A'', p_power = 2 \<rparr>,
      \<lparr> p_prefix = Some (js ''k''), p_unit = js ''g'', p_power = - 1 \<rparr>,
      \<lparr> p_prefix = None, p_unit = js ''m'', p_power = - 2 \<rparr>]"
  let ?vs = "[\<lparr> p_prefix = None, p_unit = js ''N'', p_power = - 1 \<rparr>,
      \<lparr> p_prefix = None, p_unit = js ''m'', p_power = - 2 \<rparr>]"
  have "\<forall>u \<in> set ?us. p_power u \<noteq> 0" and "\<forall>u \<in> set ?vs. p_power u \<noteq> 0"
    by simp_all
  from toUnitString_rendering [OF this(1), of ToString_decimal]
    toUnitString_rendering [OF this(2), of ToString_decimal]
  show ?thesis
    by (simp add: formatting)
qed

text \<open>
  Counterexample to claim C9 as stated: the list of the one unit \<open>s\<close> with power -1 is
  rendered \<open>s^-1\<close>, with the exponent of absolute value 1 written out, where the
  rendering of the claim is \<open>s\<close>.
\<close>

theorem toUnitString_denominator_only:
  "toUnitString ToString_decimal [\<lparr> p_prefix = None, p_unit = js ''s'', p_power = - 1 \<rparr>] =
     js ''s^-1'' \<and>
   spec_toUnitString ToString_decimal [\<lparr> p_prefix = None, p_unit = js ''s'', p_power = - 1 \<rparr>] =
     js ''s'' \<and>
   toUnitString ToString_decimal [\<lparr> p_prefix = None, p_unit = js ''s'', p_power = - 1 \<rparr>] \<noteq>
     spec_toUnitString ToString_decimal [\<lparr> p_prefix = None, p_unit = js ''s'', p_power = - 1 \<rparr>]"
  by (simp add: toUnitString_def sort_out_def formatting)

section \<open>Parsing the formatter's output\<close>

lemma token_name_with_exponent:
  assumes "CARET \<notin> set name"
  shows "token_name (name @ CARET # suffix) = name"
    and "caret_suffix (name @ CARET # suffix) = suffix"
proof -
  show name: "token_name (name @ CARET # suffix) = name"
    using assms by (induction name) (auto simp: token_name_def)
  then show "caret_suffix (name @ CARET # suffix) = suffix"
    by (simp add: caret_suffix_def token_name_def)
qed

lemma parseSingleUnit_reparsable:
  assumes "parseSingleUnit Number additionalUnits unitStr = Inr u"
    and "\<forall>c \<in> set unitStr. \<not> isUnitSeparatorStart c \<and> c \<noteq> SLASH"
    and "representable Number 1"
  shows "reparsable Number (all_units additionalUnits) u"
proof -
  obtain pw where pw: "token_power Number unitStr = Integer pw" "pw \<noteq> 0"
    using assms(1) unfolding parseSingleUnit_decomposed
    by (cases "token_power Number unitStr") (auto split: if_splits)
  with assms(1) obtain pre un
    where res: "resolve_name (all_units additionalUnits) (token_name unitStr) = Some (pre, un)"
      and u: "u = \<lparr> p_prefix = pre, p_unit = un, p_power = pw \<rparr>"
    unfolding parseSingleUnit_decomposed by (auto split: option.splits)
  have same: "unit_text u = token_name unitStr"
    using resolve_name_concat [OF res] u by (simp add: unit_text_def prefix_or_empty_def)
  have "set (token_name unitStr) \<subseteq> set unitStr" and "CARET \<notin> set (token_name unitStr)"
    unfolding token_name_def using set_takeWhileD [of _ "\<lambda>c. c \<noteq> CARET" unitStr] by auto
  with assms(2) have chars:
    "\<forall>c \<in> set (unit_text u). c \<noteq> CARET \<and> \<not> isUnitSeparatorStart c \<and> c \<noteq> SLASH"
    unfolding same by auto
  have "representable Number pw"
  proof (cases "CARET \<in> set unitStr")
    case True
    with pw(1) show ?thesis by (auto simp: token_power_def representable_def)
  next
    case False
    with pw(1) assms(3) show ?thesis by (simp add: token_power_def)
  qed
  with res chars pw(2) show ?thesis
    unfolding reparsable_def same by (simp add: u)
qed

lemma reparsable_negated:
  assumes "host_numbers Number ToString" and "reparsable Number units u"
  shows "reparsable Number units (negated u)"
  using assms
  by (simp add: reparsable_def negated_def host_numbers_def unit_text_def prefix_or_empty_def)

lemma parse_text_with_exponent:
  assumes "host_numbers Number ToString"
    and "reparsable Number (all_units additionalUnits) u"
    and "representable Number n" and "n \<noteq> 0"
  shows "parseSingleUnit Number additionalUnits (unit_text u @ CARET # ToString n) =
           Inr (u \<lparr> p_power := n \<rparr>)"
proof -
  have "CARET \<notin> set (unit_text u)"
    using assms(2) by (auto simp: reparsable_def)
  then have name: "token_name (unit_text u @ CARET # ToString n) = unit_text u"
    and suffix: "caret_suffix (unit_text u @ CARET # ToString n) = ToString n"
    by (rule token_name_with_exponent)+
  have "Number (ToString n) = Integer n"
    using assms(1,3) by (simp add: host_numbers_def)
  then have "token_power Number (unit_text u @ CARET # ToString n) = Integer n"
    by (simp add: token_power_def suffix)
  moreover have "resolve_name (all_units additionalUnits) (unit_text u) =
                   Some (p_prefix u, p_unit u)"
    using assms(2) by (simp add: reparsable_def)
  ultimately show ?thesis
    using assms(4) by (simp add: parseSingleUnit_decomposed name)
qed

lemma parse_text_alone:
  assumes "reparsable Number (all_units additionalUnits) u"
  shows "parseSingleUnit Number additionalUnits (unit_text u) = Inr (u \<lparr> p_power := 1 \<rparr>)"
proof -
  have "CARET \<notin> set (unit_text u)"
    using assms by (auto simp: reparsable_def)
  then have "token_name (unit_text u) = unit_text u"
    and "token_power Number (unit_text u) = Integer 1"
    by (simp_all add: token_name_no_caret token_power_def)
  moreover have "resolve_name (all_units additionalUnits) (unit_text u) =
                   Some (p_prefix u, p_unit u)"
    using assms by (simp add: reparsable_def)
  ultimately show ?thesis
    by (simp add: parseSingleUnit_decomposed)
qed

lemma parse_spec_entry:
  assumes "host_numbers Number ToString"
    and "reparsable Number (all_units additionalUnits) u"
  shows "parseSingleUnit Number additionalUnits (spec_entry ToString u) =
           Inr (u \<lparr> p_power := \<bar>p_power u\<bar> \<rparr>)"
proof -
  have "representable Number \<bar>p_power u\<bar>" and "\<bar>p_power u\<bar> \<noteq> 0"
    using assms by (auto simp: reparsable_def host_numbers_def abs_if)
  then show ?thesis
    using parse_text_with_exponent [OF assms, of "\<bar>p_power u\<bar>"] parse_text_alone [OF assms(2)]
    by (simp add: spec_entry_def unit_text_def)
qed

lemma parse_signed_entry:
  assumes "host_numbers Number ToString"
    and "reparsable Number (all_units additionalUnits) u"
  shows "parseSingleUnit Number additionalUnits (signed_entry ToString u) = Inr u"
proof -
  have "representable Number (p_power u)" and "p_power u \<noteq> 0"
    using assms(2) by (auto simp: reparsable_def)
  then show ?thesis
    using parse_text_with_exponent [OF assms, of "p_power u"]
    by (simp add: signed_entry_def unit_text_def)
qed

lemma entry_chars:
  assumes "host_numbers Number ToString"
    and "reparsable Number units u"
  shows "\<forall>c \<in> set (spec_entry ToString u). \<not> isUnitSeparatorStart c \<and> c \<noteq> SLASH"
    and "\<forall>c \<in> set (signed_entry ToString u). \<not> isUnitSeparatorStart c \<and> c \<noteq> SLASH"
proof -
  have caret: "\<not> isUnitSeparatorStart CARET \<and> CARET \<noteq> SLASH"
    by (simp add: isUnitSeparatorStart_def isWhiteSpace_def CARET_def SLASH_def DOT_OPERATOR_def)
  have body: "\<forall>c \<in> set (unit_text u). \<not> isUnitSeparatorStart c \<and> c \<noteq> SLASH"
    using assms(2) by (simp add: reparsable_def)
  have "representable Number (p_power u)"
    using assms(2) by (simp add: reparsable_def)
  then have "representable Number \<bar>p_power u\<bar>"
    using assms(1) by (auto simp: host_numbers_def abs_if)
  then have abs: "\<forall>c \<in> set (ToString \<bar>p_power u\<bar>). \<not> isUnitSeparatorStart c \<and> c \<noteq> SLASH"
    using assms(1) by (simp add: host_numbers_def)
  have signed: "\<forall>c \<in> set (ToString (p_power u)). \<not> isUnitSeparatorStart c \<and> c \<noteq> SLASH"
    using assms(1) \<open>representable Number (p_power u)\<close> by (simp add: host_numbers_def)
  show "\<forall>c \<in> set (spec_entry ToString u). \<not> isUnitSeparatorStart c \<and> c \<noteq> SLASH"
    using caret body abs by (auto simp: spec_entry_def unit_text_def)
  show "\<forall>c \<in> set (signed_entry ToString u). \<not> isUnitSeparatorStart c \<and> c \<noteq> SLASH"
    using caret body signed by (auto simp: signed_entry_def unit_text_def)
qed

lemma map_throwing_map:
  assumes "\<forall>x \<in> set xs. f (g x) = Inr (h x)"
  shows "map_throwing f (map g xs) = Inr (map h xs)"
  using assms by (induction xs) simp_all

lemma map_throwing_Inr:
  assumes "map_throwing f xs = Inr ys"
  shows "list_all2 (\<lambda>x y. f x = Inr y) xs ys"
  using assms by (induction xs arbitrary: ys) (auto split: sum.splits)

lemma map_throwing_member:
  assumes "map_throwing f xs = Inr ys" and "y \<in> set ys"
  shows "\<exists>x \<in> set xs. f x = Inr y"
  using assms by (induction xs arbitrary: ys) (auto split: sum.splits)

lemma map_throwing_reparsable:
  assumes "map_throwing (parseSingleUnit Number additionalUnits)
             (split_UNIT_SEPARATOR (trim side)) = Inr us"
    and "SLASH \<notin> set side" and "representable Number 1"
  shows "\<forall>u \<in> set us. reparsable Number (all_units additionalUnits) u"
proof
  fix u assume "u \<in> set us"
  with map_throwing_member [OF assms(1)] obtain piece
    where piece: "piece \<in> set (split_UNIT_SEPARATOR (trim side))"
      and parsed: "parseSingleUnit Number additionalUnits piece = Inr u"
    by blast
  from split_UNIT_SEPARATOR_pieces [OF piece] set_trim [of side] assms(2)
  have "\<forall>c \<in> set piece. \<not> isUnitSeparatorStart c \<and> c \<noteq> SLASH"
    by auto
  with parsed show "reparsable Number (all_units additionalUnits) u"
    using assms(3) by (rule parseSingleUnit_reparsable)
qed

lemma parseUnits_reparsable:
  assumes "host_numbers Number ToString"
    and "parseUnits Number additionalUnits unitStr = Inr units"
  shows "units \<noteq> [] \<and> (\<forall>u \<in> set units. reparsable Number (all_units additionalUnits) u)"
proof
  show "units \<noteq> []"
    using assms(2) parseUnits_not_empty_list [of Number additionalUnits unitStr] by auto
next
  let ?sections = "split_slash unitStr"
  have one: "representable Number 1"
    using assms(1) by (simp add: host_numbers_def)
  have first: "SLASH \<notin> set (?sections ! 0)"
    using split_slash_pieces [of "?sections ! 0" unitStr] split_slash_not_Nil [of unitStr]
    by (cases ?sections) auto
  from assms(2) obtain ns
    where ns: "map_throwing (parseSingleUnit Number additionalUnits)
                 (split_UNIT_SEPARATOR (trim (?sections ! 0))) = Inr ns"
    by (auto simp: parseUnits_def Let_def split: if_splits sum.splits)
  have ns_ok: "\<forall>u \<in> set ns. reparsable Number (all_units additionalUnits) u"
    using ns first one by (rule map_throwing_reparsable)
  show "\<forall>u \<in> set units. reparsable Number (all_units additionalUnits) u"
  proof (cases "at_index ?sections 1")
    case None
    with assms(2) ns have "units = ns"
      by (auto simp: parseUnits_def Let_def split: if_splits)
    with ns_ok show ?thesis by simp
  next
    case (Some den)
    then have "den \<in> set ?sections"
      by (auto simp: at_index_def split: if_splits)
    then have second: "SLASH \<notin> set den"
      using split_slash_pieces [of den unitStr] by auto
    from assms(2) ns Some obtain ds
      where ds: "map_throwing (parseSingleUnit Number additionalUnits)
                   (split_UNIT_SEPARATOR (trim den)) = Inr ds"
        and units: "units = ns @ map (\<lambda>x. x \<lparr> p_power := p_power x * - 1 \<rparr>) ds"
      by (auto simp: parseUnits_def Let_def split: if_splits sum.splits)
    have "\<forall>u \<in> set ds. reparsable Number (all_units additionalUnits) u"
      using ds second one by (rule map_throwing_reparsable)
    then have "\<forall>u \<in> set ds. reparsable Number (all_units additionalUnits) (negated u)"
      using reparsable_negated [OF assms(1)] by blast
    moreover have "(\<lambda>x. x \<lparr> p_power := p_power x * - 1 \<rparr>) = negated"
      by (simp add: negated_def fun_eq_iff)
    ultimately show ?thesis
      using ns_ok units by auto
  qed
qed

lemma parse_joined_entries:
  assumes "us \<noteq> []"
    and "\<forall>u \<in> set us. parseSingleUnit Number additionalUnits (entry u) = Inr (back u)"
    and "\<forall>u \<in> set us. \<forall>c \<in> set (entry u). \<not> isUnitSeparatorStart c \<and> c \<noteq> SLASH"
  shows "map_throwing (parseSingleUnit Number additionalUnits)
           (split_UNIT_SEPARATOR (trim (join [DOT_OPERATOR] (map entry us)))) =
         Inr (map back us)"
    and "SLASH \<notin> set (join [DOT_OPERATOR] (map entry us))"
proof -
  let ?joined = "join [DOT_OPERATOR] (map entry us)"
  let ?A = "{c. \<not> isWhiteSpace c \<and> c \<noteq> SLASH}"
  have "\<forall>t \<in> set (map entry us). set t \<subseteq> ?A"
    using assms(3) by (auto simp: isUnitSeparatorStart_def)
  moreover have "set [DOT_OPERATOR] \<subseteq> ?A"
    by (simp add: DOT_OPERATOR_def SLASH_def isWhiteSpace_def)
  ultimately have chars: "set ?joined \<subseteq> ?A"
    by (rule set_join_subset)
  then show "SLASH \<notin> set ?joined" by auto
  from chars have "trim ?joined = ?joined"
    by (intro trim_no_white_space) auto
  moreover have "split_UNIT_SEPARATOR ?joined = map entry us"
    using assms(1,3) by (intro split_UNIT_SEPARATOR_join) auto
  ultimately show "map_throwing (parseSingleUnit Number additionalUnits)
           (split_UNIT_SEPARATOR (trim ?joined)) = Inr (map back us)"
    using assms(2) by (simp add: map_throwing_map)
qed

lemma mset_by_sign:
  assumes "\<forall>u \<in> set units. p_power u \<noteq> 0"
  shows "mset (filter (\<lambda>u. p_power u > 0) units @ filter (\<lambda>u. p_power u < 0) units) =
         mset units"
proof -
  have "filter (\<lambda>u. p_power u < 0) units = filter (\<lambda>u. \<not> p_power u > 0) units"
    using assms by (intro filter_cong) auto
  then show ?thesis by simp
qed

text \<open>
  Claim C3. For a host whose number conversions satisfy ECMAScript's guarantees
  (\<open>host_numbers\<close>), and every unit string that parses: the formatter's rendering of the
  parsed list parses again, to a list with the same units, each as often as before
  (equal as multisets; the order changes when a unit of negative power stood before one
  of positive power).
\<close>

theorem parse_format_parse:
  assumes "host_numbers Number ToString"
    and "parseUnits Number additionalUnits unitStr = Inr units"
  shows "\<exists>again. parseUnits Number additionalUnits (toUnitString ToString units) = Inr again \<and>
                 mset again = mset units"
proof -
  let ?pos = "filter (\<lambda>u. p_power u > 0) units"
  let ?neg = "filter (\<lambda>u. p_power u < 0) units"
  from parseUnits_reparsable [OF assms]
  have nonempty: "units \<noteq> []"
    and ok: "\<forall>u \<in> set units. reparsable Number (all_units additionalUnits) u"
    by simp_all
  then have nonzero: "\<forall>u \<in> set units. p_power u \<noteq> 0"
    by (simp add: reparsable_def)
  have entries: "\<forall>u \<in> set units. \<forall>c \<in> set (spec_entry ToString u).
                   \<not> isUnitSeparatorStart c \<and> c \<noteq> SLASH"
    using entry_chars(1) [OF assms(1)] ok by blast
  show ?thesis
  proof (cases "\<exists>u \<in> set units. p_power u > 0")
    case False
    have same: "\<forall>u \<in> set units.
            parseSingleUnit Number additionalUnits (signed_entry ToString u) = Inr u"
      using parse_signed_entry [OF assms(1)] ok by blast
    have chars: "\<forall>u \<in> set units. \<forall>c \<in> set (signed_entry ToString u).
                     \<not> isUnitSeparatorStart c \<and> c \<noteq> SLASH"
      using entry_chars(2) [OF assms(1)] ok by blast
    have
      "map_throwing (parseSingleUnit Number additionalUnits)
         (split_UNIT_SEPARATOR (trim (join [DOT_OPERATOR] (map (signed_entry ToString) units)))) =
       Inr (map (\<lambda>u. u) units)"
      and "SLASH \<notin> set (join [DOT_OPERATOR] (map (signed_entry ToString) units))"
      using parse_joined_entries [OF nonempty same chars] by simp_all
    then have "parseUnits Number additionalUnits
                 (join [DOT_OPERATOR] (map (signed_entry ToString) units)) = Inr units"
      by (simp add: parseUnits_no_slash)
    with False show ?thesis
      by (simp add: toUnitString_cases [OF nonzero])
  next
    case True
    then have pos_nonempty: "?pos \<noteq> []"
      by (simp add: filter_empty_conv)
    have pos_back:
      "\<forall>u \<in> set ?pos. parseSingleUnit Number additionalUnits (spec_entry ToString u) = Inr u"
      using parse_spec_entry [OF assms(1)] ok by auto
    have pos_chars: "\<forall>u \<in> set ?pos. \<forall>c \<in> set (spec_entry ToString u).
                     \<not> isUnitSeparatorStart c \<and> c \<noteq> SLASH"
      using entries by auto
    have
      pos: "map_throwing (parseSingleUnit Number additionalUnits)
              (split_UNIT_SEPARATOR (trim (join [DOT_OPERATOR] (map (spec_entry ToString) ?pos)))) =
            Inr (map (\<lambda>u. u) ?pos)"
      and pos_slash: "SLASH \<notin> set (join [DOT_OPERATOR] (map (spec_entry ToString) ?pos))"
      using parse_joined_entries [OF pos_nonempty pos_back pos_chars] by simp_all
    show ?thesis
    proof (cases "?neg = []")
      case True
      then have "parseUnits Number additionalUnits (spec_toUnitString ToString units) = Inr ?pos"
        using pos pos_slash by (simp add: spec_toUnitString_def parseUnits_no_slash)
      moreover have "mset ?pos = mset units"
        using mset_by_sign [OF nonzero] True by simp
      ultimately show ?thesis
        using \<open>\<exists>u \<in> set units. p_power u > 0\<close> by (simp add: toUnitString_cases [OF nonzero])
    next
      case False
      have neg_back: "\<forall>u \<in> set ?neg.
              parseSingleUnit Number additionalUnits (spec_entry ToString u) = Inr (negated u)"
        using parse_spec_entry [OF assms(1)] ok by (auto simp: negated_def)
      have neg_chars: "\<forall>u \<in> set ?neg. \<forall>c \<in> set (spec_entry ToString u).
                       \<not> isUnitSeparatorStart c \<and> c \<noteq> SLASH"
        using entries by auto
      have
        neg: "map_throwing (parseSingleUnit Number additionalUnits)
                (split_UNIT_SEPARATOR (trim (join [DOT_OPERATOR] (map (spec_entry ToString) ?neg)))) =
              Inr (map negated ?neg)"
        and neg_slash: "SLASH \<notin> set (join [DOT_OPERATOR] (map (spec_entry ToString) ?neg))"
        using parse_joined_entries [OF False neg_back neg_chars] by simp_all
      have "map negated (map negated ?neg) = ?neg"
        by (simp add: negated_def comp_def)
      then have "parseUnits Number additionalUnits (spec_toUnitString ToString units) =
                   Inr (?pos @ ?neg)"
        using pos neg pos_slash neg_slash pos_nonempty False
        by (simp add: spec_toUnitString_def parseUnits_quotient del: map_map)
      with mset_by_sign [OF nonzero] show ?thesis
        using \<open>\<exists>u \<in> set units. p_power u > 0\<close> by (simp add: toUnitString_cases [OF nonzero])
    qed
  qed
qed

section \<open>The round trip on a concrete input\<close>

theorem parse_format_parse_witness:
  "host_numbers StringToNumber ToString_decimal \<and>
   parseUnits StringToNumber None (js ''m^-1 s^4'' @ DOT_OPERATOR # js ''A^2 / kg^1'') =
     Inr [\<lparr> p_prefix = None, p_unit = js ''m'', p_power = - 1 \<rparr>,
          \<lparr> p_prefix = None, p_unit = js ''s'', p_power = 4 \<rparr>,
          \<lparr> p_prefix = None, p_unit = js ''A'', p_power = 2 \<rparr>,
          \<lparr> p_prefix = Some (js ''k''), p_unit = js ''g'', p_power = - 1 \<rparr>] \<and>
   toUnitString ToString_decimal
     [\<lparr> p_prefix = None, p_unit = js ''m'', p_power = - 1 \<rparr>,
      \<lparr> p_prefix = None, p_unit = js ''s'', p_power = 4 \<rparr>,
      \<lparr> p_prefix = None, p_unit = js ''A'', p_power = 2 \<rparr>,
      \<lparr> p_prefix = Some (js ''k''), p_unit = js ''g'', p_power = - 1 \<rparr>] =
     js ''s^4'' @ DOT_OPERATOR # js ''A^2/m'' @ DOT_OPERATOR # js ''kg'' \<and>
   (\<exists>again.
      parseUnits StringToNumber None
        (js ''s^4'' @ DOT_OPERATOR # js ''A^2/m'' @ DOT_OPERATOR # js ''kg'') = Inr again \<and>
      mset again =
        mset [\<lparr> p_prefix = None, p_unit = js ''m'', p_power = - 1 \<rparr>,
              \<lparr> p_prefix = None, p_unit = js ''s'', p_power = 4 \<rparr>,
              \<lparr> p_prefix = None, p_unit = js ''A'', p_power = 2 \<rparr>,
              \<lparr> p_prefix = Some (js ''k''), p_unit = js ''g'', p_power = - 1 \<rparr>])"
proof -
  let ?units = "[\<lparr> p_prefix = None, p_unit = js ''m'', p_power = - 1 \<rparr>,
          \<lparr> p_prefix = None, p_unit = js ''s'', p_power = 4 \<rparr>,
          \<lparr> p_prefix = None, p_unit = js ''A'', p_power = 2 \<rparr>,
          \<lparr> p_prefix = Some (js ''k''), p_unit = js ''g'', p_power = - 1 \<rparr>]"
  have parsed:
    "parseUnits StringToNumber None (js ''m^-1 s^4'' @ DOT_OPERATOR # js ''A^2 / kg^1'') =
       Inr ?units"
    by (simp add: evaluation)
  have formatted:
    "toUnitString ToString_decimal ?units =
       js ''s^4'' @ DOT_OPERATOR # js ''A^2/m'' @ DOT_OPERATOR # js ''kg''"
    by (simp add: toUnitString_def sort_out_def formatting)
  show ?thesis
    using parse_format_parse [OF host_numbers_StringToNumber parsed] host_numbers_StringToNumber
    unfolding formatted using parsed formatted by simp
qed

end
